theory Spec2Isabelle
  imports Main "HOL-Library.Char_ord" "HOL-Library.List_Lexorder"
begin

section \<open>Settings migration at activation (src/extension.ts)\<close>

text \<open>
  The file \<^verbatim>\<open>src/extension.ts\<close> holds the activation hook \<^verbatim>\<open>activate\<close> and the
  settings migration \<^verbatim>\<open>migrateSettings\<close>. Both are embedded below as functions on an
  explicit host state. Three collaborators live in modules that are not part of the source
  at hand (\<^verbatim>\<open>./system\<close> for \<^verbatim>\<open>Versions\<close>, \<^verbatim>\<open>./configuration\<close> for the configuration
  store with \<^verbatim>\<open>migrate\<close> and \<^verbatim>\<open>migrateIfMissing\<close>); they are modelled from the written
  specification and marked as such.
\<close>

subsection \<open>Values, errors and the host state\<close>

text \<open>
  A configuration value is a JSON value. JavaScript's \<^verbatim>\<open>undefined\<close> is not a JSON value:
  it is the \<open>None\<close> of \<open>jsvalue option\<close>. Numbers are kept as integers; the
  migration only ever observes whether a number is zero (truthiness).
\<close>

datatype jsvalue =
    JNull
  | JBool bool
  | JNum int
  | JStr string
  | JArr "jsvalue list"
  | JObj "(string \<times> jsvalue) list"

datatype error =
    ParseError string
  | TypeError
  | GitError string

datatype log_entry =
    LogNotActivated string
  | LogError error string
  | LogWarning error string
  | LogFirstInstall
  | LogUpgraded string string
  | LogActivated string

text \<open>
  The host state that \<^verbatim>\<open>activate\<close> reads and writes: the explicitly set configuration
  values, the defaults of the configuration schema, the sequence of configuration writes
  performed so far, the persisted version marker
  (\<^verbatim>\<open>context.globalState\<close> at \<^verbatim>\<open>GlobalState.GitLensVersion\<close>), the command context flag
  set by \<^verbatim>\<open>setCommandContext(CommandContext.Enabled, _)\<close>, and the log.
\<close>

record host =
  settings :: "string \<rightharpoonup> jsvalue"
  defaults :: "string \<rightharpoonup> jsvalue"
  writes :: "(string \<times> jsvalue option) list"
  marker :: "string option"
  enabled :: "bool option"
  logged :: "log_entry list"

text \<open>
  A call either returns with the state it leaves behind, or throws, again with the state
  at the point of the throw (writes performed before the throw stay).
\<close>

datatype 'a res = Done 'a | Threw error 'a

fun state_of :: "'a res \<Rightarrow> 'a" where
  "state_of (Done s) = s"
| "state_of (Threw e s) = s"

fun returned :: "'a res \<Rightarrow> bool" where
  "returned (Done s) = True"
| "returned (Threw e s) = False"

text \<open>A block of awaited statements: the first one that throws ends the block.\<close>

fun seq :: "('a \<Rightarrow> 'a res) list \<Rightarrow> 'a \<Rightarrow> 'a res" where
  "seq [] s = Done s"
| "seq (a # as) s = (case a s of Done s' \<Rightarrow> seq as s' | Threw e s' \<Rightarrow> Threw e s')"

definition if_then :: "bool \<Rightarrow> ('a \<Rightarrow> 'a res) \<Rightarrow> 'a \<Rightarrow> 'a res" where
  "if_then c a s = (if c then a s else Done s)"

definition try_catch :: "('a \<Rightarrow> 'a res) \<Rightarrow> (error \<Rightarrow> 'a \<Rightarrow> 'a res) \<Rightarrow> 'a \<Rightarrow> 'a res" where
  "try_catch body handler s =
     (case body s of Done s' \<Rightarrow> Done s' | Threw e s' \<Rightarrow> handler e s')"

definition Logger_log :: "log_entry \<Rightarrow> host \<Rightarrow> host" where
  "Logger_log entry s = s\<lparr>logged := logged s @ [entry]\<rparr>"

definition Logger_error :: "error \<Rightarrow> string \<Rightarrow> host \<Rightarrow> host" where
  "Logger_error ex classifier s = Logger_log (LogError ex classifier) s"

definition setCommandContext_Enabled :: "bool \<Rightarrow> host \<Rightarrow> host" where
  "setCommandContext_Enabled b s = s\<lparr>enabled := Some b\<rparr>"

subsection \<open>Versions (module ./system, not in the source at hand)\<close>

text \<open>
  Modelled from the spec: the version value of \<^verbatim>\<open>./system\<close> is missing from the source.
  The spec gives it a major, a minor and a patch number, all non-negative integers, and an
  optional pre-release tag; \<^verbatim>\<open>Versions.from\<close> builds one from its fields.
\<close>

record version =
  major :: nat
  minor :: nat
  patch :: nat
  pre :: "string option"

definition Versions_from :: "nat \<Rightarrow> nat \<Rightarrow> nat \<Rightarrow> string option \<Rightarrow> version" where
  "Versions_from ma mi pa pr = \<lparr>major = ma, minor = mi, patch = pa, pre = pr\<rparr>"

text \<open>
  Modelled from the spec: \<^verbatim>\<open>Versions.compare\<close> is missing from the source. The spec
  orders by major, then minor, then patch, numerically; with these equal, a version with a
  pre-release tag comes before the one without, and two tags compare lexically. The result
  is one of -1, 0, 1.
\<close>

definition Versions_compare :: "version \<Rightarrow> version \<Rightarrow> int" where
  "Versions_compare v1 v2 =
     (if major v1 > major v2 then 1
      else if major v1 < major v2 then - 1
      else if minor v1 > minor v2 then 1
      else if minor v1 < minor v2 then - 1
      else if patch v1 > patch v2 then 1
      else if patch v1 < patch v2 then - 1
      else (case (pre v1, pre v2) of
              (None, None) \<Rightarrow> 0
            | (None, Some b) \<Rightarrow> 1
            | (Some a, None) \<Rightarrow> - 1
            | (Some a, Some b) \<Rightarrow> (if a < b then - 1 else if a = b then 0 else 1)))"

text \<open>
  Modelled from the spec: the pieces of the parser of \<^verbatim>\<open>Versions.fromString\<close> below,
  missing from the source with it: a decimal digit, a non-empty decimal numeral, and the
  split of a string at the first occurrence of a separator.
\<close>

definition digit :: "char \<Rightarrow> nat option" where
  "digit = map_of (zip ''0123456789'' [0, 1, 2, 3, 4, 5, 6, 7, 8, 9])"

fun digits :: "nat \<Rightarrow> string \<Rightarrow> nat option" where
  "digits n [] = Some n"
| "digits n (c # cs) = (case digit c of None \<Rightarrow> None | Some d \<Rightarrow> digits (10 * n + d) cs)"

definition number :: "string \<Rightarrow> nat option" where
  "number s = (if s = [] then None else digits 0 s)"

fun split_first :: "char \<Rightarrow> string \<Rightarrow> string \<times> string option" where
  "split_first c [] = ([], None)"
| "split_first c (x # xs) =
     (if x = c then ([], Some xs)
      else (case split_first c xs of (a, r) \<Rightarrow> (x # a, r)))"

text \<open>
  Modelled from the spec: \<^verbatim>\<open>Versions.fromString\<close> is missing from the source. The spec
  has it parse a dotted version string, tolerant of a trailing pre-release suffix after a
  dash (\<^verbatim>\<open>8.0.0-beta2\<close>), and fail with a \<^verbatim>\<open>ParseError\<close> on unparsable input. Here a
  string parses when the part before the first dash is three non-empty decimal numerals
  separated by dots; the tag is whatever follows the first dash.
\<close>

definition Versions_fromString :: "string \<Rightarrow> error + version" where
  "Versions_fromString str =
     (case split_first CHR ''-'' str of (ver, tag) \<Rightarrow>
        (case split_first CHR ''.'' ver of
           (a, Some r) \<Rightarrow>
             (case split_first CHR ''.'' r of
                (b, Some c) \<Rightarrow>
                  (case (number a, number b, number c) of
                     (Some ma, Some mi, Some pa) \<Rightarrow> Inr (Versions_from ma mi pa tag)
                   | _ \<Rightarrow> Inl (ParseError str))
              | (b, None) \<Rightarrow> Inl (ParseError str))
         | (a, None) \<Rightarrow> Inl (ParseError str)))"

subsection \<open>The configuration store (module ./configuration, not in the source at hand)\<close>

text \<open>
  Modelled from the spec: the store adapter is missing from the source. The spec gives it
  four operations: \<^verbatim>\<open>get\<close> returns the explicit value or else the default, \<^verbatim>\<open>has\<close> is
  true only for an explicitly set key, \<^verbatim>\<open>set\<close> and \<^verbatim>\<open>unset\<close> are single independent
  writes, visible to later reads of the same run. Every write is also appended to
  \<open>writes\<close>, so that the number of mutations of a run can be counted.
\<close>

definition cfg_get :: "host \<Rightarrow> string \<Rightarrow> jsvalue option" where
  "cfg_get s p = (case settings s p of Some v \<Rightarrow> Some v | None \<Rightarrow> defaults s p)"

text \<open>
  Modelled from the spec: \<^verbatim>\<open>has\<close> of the missing store adapter, true only for a key
  that is explicitly set, not for one that merely has a default.
\<close>

definition cfg_has :: "host \<Rightarrow> string \<Rightarrow> bool" where
  "cfg_has s p = (settings s p \<noteq> None)"

text \<open>
  Modelled from the spec: \<^verbatim>\<open>set\<close> of the missing store adapter, one independent write.
\<close>

definition cfg_set :: "string \<Rightarrow> jsvalue \<Rightarrow> host \<Rightarrow> host" where
  "cfg_set p v s = s\<lparr>settings := (settings s)(p \<mapsto> v), writes := writes s @ [(p, Some v)]\<rparr>"

text \<open>
  Modelled from the spec: \<^verbatim>\<open>unset\<close> of the missing store adapter; the key falls back
  to its default.
\<close>

definition cfg_unset :: "string \<Rightarrow> host \<Rightarrow> host" where
  "cfg_unset p s = s\<lparr>settings := (settings s)(p := None), writes := writes s @ [(p, None)]\<rparr>"

text \<open>
  Modelled from the spec: the write that the missing \<^verbatim>\<open>configuration.migrate\<close> performs
  with the value it has computed. A transform of the source may return \<^verbatim>\<open>undefined\<close>
  (the one of line 142 always does). In the source \<^verbatim>\<open>undefined\<close> is what an absent value
  reads as (line 78), so a key written with \<^verbatim>\<open>undefined\<close> has no explicit value: the
  write is the store's \<^verbatim>\<open>unset\<close>; any other value is a \<^verbatim>\<open>set\<close>.
\<close>

definition cfg_update :: "string \<Rightarrow> jsvalue option \<Rightarrow> host \<Rightarrow> host" where
  "cfg_update p vo s = (case vo of None \<Rightarrow> cfg_unset p s | Some v \<Rightarrow> cfg_set p v s)"

text \<open>
  Modelled from the spec: \<^verbatim>\<open>configuration.name(a)(b).value\<close> is missing from the source;
  the spec addresses configuration keys by dotted paths such as \<^verbatim>\<open>blame.avatars\<close>.
\<close>

fun name :: "string list \<Rightarrow> string" where
  "name [] = []"
| "name [a] = a"
| "name (a # b # r) = a @ ''.'' @ name (b # r)"

subsection \<open>Migration rules\<close>

text \<open>
  A transform is one of the \<^verbatim>\<open>migrationFn\<close> closures of the source. It receives the
  legacy value; a closure may also read the configuration (\<^verbatim>\<open>configuration.get\<close>), which
  is its first argument here. It returns a value, \<^verbatim>\<open>undefined\<close>, or throws.
\<close>

type_synonym transform = "(string \<Rightarrow> jsvalue option) \<Rightarrow> jsvalue \<Rightarrow> error + jsvalue option"

datatype mode = Overwrite | OnlyIfDestinationUnset

record rule =
  sourceKey :: string
  destinationKey :: string
  transform :: "transform option"
  mode :: mode
  fallbackValue :: "jsvalue option"

text \<open>
  Modelled from the spec: the body of \<^verbatim>\<open>configuration.migrate\<close> and
  \<^verbatim>\<open>configuration.migrateIfMissing\<close> is missing from the source. The spec executes a rule
  in four steps: (1) in mode OnlyIfDestinationUnset a destination that is explicitly set
  is left alone; (2) without an explicit source the rule is skipped, unless it has a
  fallback value, which is then written; (3) the source value is read and, if there is a
  transform, transformed, a failing transform being replaced by the fallback if present and
  otherwise skipped with a non-fatal warning; (4) the new value is written to the
  destination. The source key is not written by any step.
\<close>

definition executeRule :: "rule \<Rightarrow> host \<Rightarrow> host" where
  "executeRule r s =
     (if mode r = OnlyIfDestinationUnset \<and> cfg_has s (destinationKey r) then s
      else (case settings s (sourceKey r) of
              None \<Rightarrow>
                (case fallbackValue r of
                   None \<Rightarrow> s
                 | Some fb \<Rightarrow> cfg_set (destinationKey r) fb s)
            | Some sourceValue \<Rightarrow>
                (case transform r of
                   None \<Rightarrow> cfg_set (destinationKey r) sourceValue s
                 | Some f \<Rightarrow>
                     (case f (cfg_get s) sourceValue of
                        Inr newValue \<Rightarrow> cfg_update (destinationKey r) newValue s
                      | Inl ex \<Rightarrow>
                          (case fallbackValue r of
                             Some fb \<Rightarrow> cfg_set (destinationKey r) fb s
                           | None \<Rightarrow> Logger_log (LogWarning ex (sourceKey r)) s)))))"

text \<open>
  Modelled from the spec: \<^verbatim>\<open>configuration.migrate(from, to, options)\<close>, missing from the
  source, executes the rule in overwrite mode with the \<^verbatim>\<open>migrationFn\<close> and the
  \<^verbatim>\<open>fallbackValue\<close> of its options. By step 3 no failure of the transform leaves the
  call, so the call always returns.
\<close>

definition migrate ::
  "string \<Rightarrow> string \<Rightarrow> transform option \<Rightarrow> jsvalue option \<Rightarrow> host \<Rightarrow> host res" where
  "migrate from to migrationFn fallback s =
     Done (executeRule \<lparr>sourceKey = from, destinationKey = to, transform = migrationFn,
                        mode = Overwrite, fallbackValue = fallback\<rparr> s)"

text \<open>
  Modelled from the spec: \<^verbatim>\<open>configuration.migrateIfMissing(from, to, options)\<close>, missing
  from the source, executes the rule in the mode that writes only an unset destination;
  its options have no fallback value.
\<close>

definition migrateIfMissing ::
  "string \<Rightarrow> string \<Rightarrow> transform option \<Rightarrow> host \<Rightarrow> host res" where
  "migrateIfMissing from to migrationFn s =
     Done (executeRule \<lparr>sourceKey = from, destinationKey = to, transform = migrationFn,
                        mode = OnlyIfDestinationUnset, fallbackValue = None\<rparr> s)"

subsection \<open>The transforms of the source\<close>

text \<open>
  The closures are typed in TypeScript, but the values they receive come from the user's
  settings file and can be any JSON value; the model follows what JavaScript does on each.
  \<^verbatim>\<open>v ? a : b\<close> tests truthiness.
\<close>

fun truthy :: "jsvalue \<Rightarrow> bool" where
  "truthy JNull = False"
| "truthy (JBool b) = b"
| "truthy (JNum n) = (n \<noteq> 0)"
| "truthy (JStr str) = (str \<noteq> [])"
| "truthy (JArr xs) = True"
| "truthy (JObj kvs) = True"

text \<open>
  Reading a property (\<^verbatim>\<open>ls.language\<close>): it throws on \<^verbatim>\<open>null\<close>, finds the member of an
  object (whose keys are taken to be distinct), and is \<^verbatim>\<open>undefined\<close> on anything else,
  none of the three names read by the source being a built-in property.
\<close>

fun property :: "jsvalue \<Rightarrow> string \<Rightarrow> error + jsvalue option" where
  "property JNull k = Inl TypeError"
| "property (JObj kvs) k = Inr (map_of kvs k)"
| "property v k = Inr None"

text \<open>An object literal; a member that is \<^verbatim>\<open>undefined\<close> is not stored.\<close>

fun object_of :: "(string \<times> jsvalue option) list \<Rightarrow> (string \<times> jsvalue) list" where
  "object_of [] = []"
| "object_of ((k, None) # kvs) = object_of kvs"
| "object_of ((k, Some v) # kvs) = (k, v) # object_of kvs"

text \<open>Lines 98 to 104 and 184 to 190: the body of the arrow function given to \<^verbatim>\<open>v.map\<close>.\<close>

definition languageScope :: "jsvalue \<Rightarrow> error + jsvalue" where
  "languageScope ls =
     (case property ls ''language'' of
        Inl ex \<Rightarrow> Inl ex
      | Inr language \<Rightarrow>
          (case property ls ''locations'' of
             Inl ex \<Rightarrow> Inl ex
           | Inr locations \<Rightarrow>
               (case property ls ''customSymbols'' of
                  Inl ex \<Rightarrow> Inl ex
                | Inr customSymbols \<Rightarrow>
                    Inr (JObj (object_of [(''language'', language), (''scopes'', locations),
                                          (''symbolScopes'', customSymbols)])))))"

fun array_map :: "(jsvalue \<Rightarrow> error + jsvalue) \<Rightarrow> jsvalue list \<Rightarrow> error + jsvalue list" where
  "array_map f [] = Inr []"
| "array_map f (x # xs) =
     (case f x of
        Inl ex \<Rightarrow> Inl ex
      | Inr y \<Rightarrow> (case array_map f xs of Inl ex \<Rightarrow> Inl ex | Inr ys \<Rightarrow> Inr (y # ys)))"

text \<open>Lines 97 to 106: only an array has \<^verbatim>\<open>map\<close>; on any other value the call throws.\<close>

definition codeLensScopes_fn :: transform where
  "codeLensScopes_fn get v =
     (case v of
        JArr xs \<Rightarrow>
          (case array_map languageScope xs of
             Inl ex \<Rightarrow> Inl ex
           | Inr scopes \<Rightarrow> Inr (Some (JArr scopes)))
      | _ \<Rightarrow> Inl TypeError)"

text \<open>Lines 119, 126, 205 and 212: \<^verbatim>\<open>v => v ? 'line' : 'annotation'\<close>.\<close>

definition wholeLine_fn :: transform where
  "wholeLine_fn get v = Inr (Some (if truthy v then JStr ''line'' else JStr ''annotation''))"

text \<open>
  Modelled from the spec: the enum constants \<^verbatim>\<open>OutputLevel.Debug\<close> and
  \<^verbatim>\<open>KeyMap.Alternate\<close> are declared in \<^verbatim>\<open>./configuration\<close>, missing from the source;
  the spec calls the first the debug enum value.
\<close>

definition OutputLevel_Debug :: jsvalue where
  "OutputLevel_Debug = JStr ''debug''"

definition KeyMap_Alternate :: jsvalue where
  "KeyMap_Alternate = JStr ''alternate''"

text \<open>
  Line 141:
  \<^verbatim>\<open>v => v ? OutputLevel.Debug : configuration.get(configuration.name('outputLevel').value)\<close>.
\<close>

definition debug_fn :: transform where
  "debug_fn get v = Inr (if truthy v then Some OutputLevel_Debug else get (name [''outputLevel'']))"

text \<open>Line 142: \<^verbatim>\<open>v => undefined\<close>.\<close>

definition undefined_fn :: transform where
  "undefined_fn get v = Inr None"

text \<open>
  \<^verbatim>\<open>indexOf\<close> on an array compares with \<^verbatim>\<open>===\<close> and gives -1 when nothing matches; on
  a string it looks for a substring.
\<close>

fun indexOf :: "jsvalue list \<Rightarrow> jsvalue \<Rightarrow> int" where
  "indexOf [] a = - 1"
| "indexOf (x # xs) a =
     (if x = a then 0 else (let i = indexOf xs a in if i = - 1 then - 1 else i + 1))"

fun string_indexOf :: "string \<Rightarrow> string \<Rightarrow> int" where
  "string_indexOf [] p = (if p = [] then 0 else - 1)"
| "string_indexOf (c # cs) p =
     (if take (length p) (c # cs) = p then 0
      else (let i = string_indexOf cs p in if i = - 1 then - 1 else i + 1))"

text \<open>
  Lines 148 to 154 and 159 to 165. \<^verbatim>\<open>v.splice(index, 1, 'overview')\<close> replaces the
  element at \<^verbatim>\<open>index\<close>. A string has \<^verbatim>\<open>indexOf\<close> but no \<^verbatim>\<open>splice\<close>, so a string that
  contains the old name throws at the splice; a value that is neither an array nor a
  string throws at \<^verbatim>\<open>indexOf\<close>.
\<close>

definition locations_fn :: transform where
  "locations_fn get v =
     (case v of
        JArr xs \<Rightarrow>
          (let index = indexOf xs (JStr ''overviewRuler'') in
           if index \<noteq> - 1 then Inr (Some (JArr (xs[nat index := JStr ''overview''])))
           else Inr (Some (JArr xs)))
      | JStr str \<Rightarrow>
          (let index = string_indexOf str ''overviewRuler'' in
           if index \<noteq> - 1 then Inl TypeError else Inr (Some (JStr str)))
      | _ \<Rightarrow> Inl TypeError)"

text \<open>Line 228: \<^verbatim>\<open>v => v === 'standard' ? KeyMap.Alternate : v as KeyMap\<close>.\<close>

definition keymap_fn :: transform where
  "keymap_fn get v = Inr (Some (if v = JStr ''standard'' then KeyMap_Alternate else v))"

subsection \<open>migrateSettings\<close>

text \<open>Lines 84 to 135, the body of the first version check.\<close>

definition block_7_5_10 :: "(host \<Rightarrow> host res) list" where
  "block_7_5_10 =
     [migrate ''annotations.file.gutter.gravatars'' (name [''blame'', ''avatars'']) None None,
      migrate ''annotations.file.gutter.compact'' (name [''blame'', ''compact'']) None None,
      migrate ''annotations.file.gutter.dateFormat'' (name [''blame'', ''dateFormat'']) None None,
      migrate ''annotations.file.gutter.format'' (name [''blame'', ''format'']) None None,
      migrate ''annotations.file.gutter.heatmap.enabled'' (name [''blame'', ''heatmap'', ''enabled'']) None None,
      migrate ''annotations.file.gutter.heatmap.location'' (name [''blame'', ''heatmap'', ''location'']) None None,
      migrate ''annotations.file.gutter.lineHighlight.enabled'' (name [''blame'', ''highlight'', ''enabled'']) None None,
      migrate ''annotations.file.gutter.lineHighlight.locations'' (name [''blame'', ''highlight'', ''locations'']) None None,
      migrate ''annotations.file.gutter.separateLines'' (name [''blame'', ''separateLines'']) None None,
      migrate ''codeLens.locations'' (name [''codeLens'', ''scopes'']) None None,
      migrate ''codeLens.perLanguageLocations'' (name [''codeLens'', ''scopesByLanguage'']) (Some codeLensScopes_fn) None,
      migrate ''codeLens.customLocationSymbols'' (name [''codeLens'', ''symbolScopes'']) None None,
      migrate ''annotations.line.trailing.dateFormat'' (name [''currentLine'', ''dateFormat'']) None None,
      migrate ''blame.line.enabled'' (name [''currentLine'', ''enabled'']) None None,
      migrate ''annotations.line.trailing.format'' (name [''currentLine'', ''format'']) None None,
      migrate ''annotations.file.gutter.hover.changes'' (name [''hovers'', ''annotations'', ''changes'']) None None,
      migrate ''annotations.file.gutter.hover.details'' (name [''hovers'', ''annotations'', ''details'']) None None,
      migrate ''annotations.file.gutter.hover.details'' (name [''hovers'', ''annotations'', ''enabled'']) None None,
      migrate ''annotations.file.gutter.hover.wholeLine'' (name [''hovers'', ''annotations'', ''over'']) (Some wholeLine_fn) None,
      migrate ''annotations.line.trailing.hover.changes'' (name [''hovers'', ''currentLine'', ''changes'']) None None,
      migrate ''annotations.line.trailing.hover.details'' (name [''hovers'', ''currentLine'', ''details'']) None None,
      migrate ''blame.line.enabled'' (name [''hovers'', ''currentLine'', ''enabled'']) None None,
      migrate ''annotations.line.trailing.hover.wholeLine'' (name [''hovers'', ''currentLine'', ''over'']) (Some wholeLine_fn) None,
      migrate ''gitExplorer.gravatars'' (name [''explorers'', ''avatars'']) None None,
      migrate ''gitExplorer.commitFileFormat'' (name [''explorers'', ''commitFileFormat'']) None None,
      migrate ''gitExplorer.commitFormat'' (name [''explorers'', ''commitFormat'']) None None,
      migrate ''gitExplorer.stashFileFormat'' (name [''explorers'', ''stashFileFormat'']) None None,
      migrate ''gitExplorer.stashFormat'' (name [''explorers'', ''stashFormat'']) None None,
      migrate ''gitExplorer.statusFileFormat'' (name [''explorers'', ''statusFileFormat'']) None None,
      migrate ''recentChanges.file.lineHighlight.locations'' (name [''recentChanges'', ''highlight'', ''locations'']) None None]"
text \<open>Lines 139 to 142.\<close>

definition block_8_0_0_beta2 :: "(host \<Rightarrow> host res) list" where
  "block_8_0_0_beta2 =
     [migrate ''debug'' (name [''outputLevel'']) (Some debug_fn) None,
      migrate ''debug'' (name [''debug'']) (Some undefined_fn) None]"

text \<open>Lines 146 to 166; \<^verbatim>\<open>section\<close> is both the source and the destination.\<close>

definition block_8_0_0_rc :: "(host \<Rightarrow> host res) list" where
  "block_8_0_0_rc =
     [(let section = name [''blame'', ''highlight'', ''locations'']
       in migrate section section (Some locations_fn) None),
      (let section = name [''recentChanges'', ''highlight'', ''locations'']
       in migrate section section (Some locations_fn) None)]"

text \<open>Lines 170 to 221.\<close>

definition block_8_0_0 :: "(host \<Rightarrow> host res) list" where
  "block_8_0_0 =
     [migrateIfMissing ''annotations.file.gutter.gravatars'' (name [''blame'', ''avatars'']) None,
      migrateIfMissing ''annotations.file.gutter.compact'' (name [''blame'', ''compact'']) None,
      migrateIfMissing ''annotations.file.gutter.dateFormat'' (name [''blame'', ''dateFormat'']) None,
      migrateIfMissing ''annotations.file.gutter.format'' (name [''blame'', ''format'']) None,
      migrateIfMissing ''annotations.file.gutter.heatmap.enabled'' (name [''blame'', ''heatmap'', ''enabled'']) None,
      migrateIfMissing ''annotations.file.gutter.heatmap.location'' (name [''blame'', ''heatmap'', ''location'']) None,
      migrateIfMissing ''annotations.file.gutter.lineHighlight.enabled'' (name [''blame'', ''highlight'', ''enabled'']) None,
      migrateIfMissing ''annotations.file.gutter.lineHighlight.locations'' (name [''blame'', ''highlight'', ''locations'']) None,
      migrateIfMissing ''annotations.file.gutter.separateLines'' (name [''blame'', ''separateLines'']) None,
      migrateIfMissing ''codeLens.locations'' (name [''codeLens'', ''scopes'']) None,
      migrateIfMissing ''codeLens.perLanguageLocations'' (name [''codeLens'', ''scopesByLanguage'']) (Some codeLensScopes_fn),
      migrateIfMissing ''codeLens.customLocationSymbols'' (name [''codeLens'', ''symbolScopes'']) None,
      migrateIfMissing ''annotations.line.trailing.dateFormat'' (name [''currentLine'', ''dateFormat'']) None,
      migrateIfMissing ''blame.line.enabled'' (name [''currentLine'', ''enabled'']) None,
      migrateIfMissing ''annotations.line.trailing.format'' (name [''currentLine'', ''format'']) None,
      migrateIfMissing ''annotations.file.gutter.hover.changes'' (name [''hovers'', ''annotations'', ''changes'']) None,
      migrateIfMissing ''annotations.file.gutter.hover.details'' (name [''hovers'', ''annotations'', ''details'']) None,
      migrateIfMissing ''annotations.file.gutter.hover.details'' (name [''hovers'', ''annotations'', ''enabled'']) None,
      migrateIfMissing ''annotations.file.gutter.hover.wholeLine'' (name [''hovers'', ''annotations'', ''over'']) (Some wholeLine_fn),
      migrateIfMissing ''annotations.line.trailing.hover.changes'' (name [''hovers'', ''currentLine'', ''changes'']) None,
      migrateIfMissing ''annotations.line.trailing.hover.details'' (name [''hovers'', ''currentLine'', ''details'']) None,
      migrateIfMissing ''blame.line.enabled'' (name [''hovers'', ''currentLine'', ''enabled'']) None,
      migrateIfMissing ''annotations.line.trailing.hover.wholeLine'' (name [''hovers'', ''currentLine'', ''over'']) (Some wholeLine_fn),
      migrateIfMissing ''gitExplorer.gravatars'' (name [''explorers'', ''avatars'']) None,
      migrateIfMissing ''gitExplorer.commitFileFormat'' (name [''explorers'', ''commitFileFormat'']) None,
      migrateIfMissing ''gitExplorer.commitFormat'' (name [''explorers'', ''commitFormat'']) None,
      migrateIfMissing ''gitExplorer.stashFileFormat'' (name [''explorers'', ''stashFileFormat'']) None,
      migrateIfMissing ''gitExplorer.stashFormat'' (name [''explorers'', ''stashFormat'']) None,
      migrateIfMissing ''gitExplorer.statusFileFormat'' (name [''explorers'', ''statusFileFormat'']) None,
      migrateIfMissing ''recentChanges.file.lineHighlight.locations'' (name [''recentChanges'', ''highlight'', ''locations'']) None]"

text \<open>Lines 225 to 229.\<close>

definition block_8_0_2 :: "(host \<Rightarrow> host res) list" where
  "block_8_0_2 =
     [(let section = name [''keymap'']
       in migrate section section (Some keymap_fn) (Some KeyMap_Alternate))]"

text \<open>
  Lines 77 to 235. The version string is parsed on line 80, before the \<^verbatim>\<open>try\<close> of line
  82 opens: an exception of \<^verbatim>\<open>Versions.fromString\<close> leaves the function. Inside the
  \<^verbatim>\<open>try\<close>, each block runs unless \<^verbatim>\<open>Versions.compare\<close> gives 1; whatever is thrown
  there is logged by the \<^verbatim>\<open>catch\<close> of line 232 and the function returns.
\<close>

definition migrateSettings :: "host \<Rightarrow> string option \<Rightarrow> host res" where
  "migrateSettings s previousVersion =
     (case previousVersion of
        None \<Rightarrow> Done s
      | Some pv \<Rightarrow>
          (case Versions_fromString pv of
             Inl ex \<Rightarrow> Threw ex s
           | Inr previous \<Rightarrow>
               try_catch
                 (seq
                   [if_then (Versions_compare previous (Versions_from 7 5 10 None) \<noteq> 1)
                      (seq block_7_5_10),
                    if_then (Versions_compare previous (Versions_from 8 0 0 (Some ''beta2'')) \<noteq> 1)
                      (seq block_8_0_0_beta2),
                    if_then (Versions_compare previous (Versions_from 8 0 0 (Some ''rc'')) \<noteq> 1)
                      (seq block_8_0_0_rc),
                    if_then (Versions_compare previous (Versions_from 8 0 0 None) \<noteq> 1)
                      (seq block_8_0_0),
                    if_then (Versions_compare previous (Versions_from 8 0 2 None) \<noteq> 1)
                      (seq block_8_0_2)])
                 (\<lambda>ex s'. Done (Logger_error ex ''migrateSettings'' s'))
                 s))"

subsection \<open>activate\<close>

text \<open>
  What \<^verbatim>\<open>activate\<close> gets from outside the modelled state: the host setting
  \<^verbatim>\<open>git.enabled\<close>, the version of the running extension, and the outcome of
  \<^verbatim>\<open>GitService.initialize\<close> (nothing, or the message of the exception it throws).
\<close>

record startup =
  gitEnabled :: bool
  gitlensVersion :: string
  gitInitialize :: "string option"

text \<open>
  Lines 244 to 274. \<^verbatim>\<open>showWelcomePage\<close> is called without \<^verbatim>\<open>await\<close> on line 63, so
  nothing it throws reaches \<^verbatim>\<open>activate\<close>; of its effects only the two log lines touch
  the modelled state (the rest shows a page).
\<close>

definition showWelcomePage :: "string \<Rightarrow> string option \<Rightarrow> host \<Rightarrow> host" where
  "showWelcomePage ver previousVersion s =
     (case previousVersion of
        None \<Rightarrow> Logger_log LogFirstInstall s
      | Some pv \<Rightarrow> (if pv \<noteq> ver then Logger_log (LogUpgraded pv ver) s else s))"

text \<open>
  Lines 14 to 72. \<^verbatim>\<open>await migrateSettings\<close> on line 33 stands outside any \<^verbatim>\<open>try\<close>:
  if it throws, \<^verbatim>\<open>activate\<close> throws. When \<^verbatim>\<open>GitService.initialize\<close> throws, the
  \<^verbatim>\<open>catch\<close> of lines 40 to 47 logs the error, may show an error message (outside the
  modelled state), clears the enabled flag and returns. The calls between lines 49 and 62
  register commands and views and are taken not to throw; they leave the modelled state
  alone.
\<close>

definition activate :: "startup \<Rightarrow> host \<Rightarrow> host res" where
  "activate inp s =
     (if \<not> gitEnabled inp then
        Done (setCommandContext_Enabled False
               (Logger_log (LogNotActivated (gitlensVersion inp)) s))
      else
        (let previousVersion = marker s in
         case migrateSettings s previousVersion of
           Threw ex s1 \<Rightarrow> Threw ex s1
         | Done s1 \<Rightarrow>
             (case gitInitialize inp of
                Some msg \<Rightarrow>
                  Done (setCommandContext_Enabled False
                         (Logger_error (GitError msg) ''activate'' s1))
              | None \<Rightarrow>
                  Done (Logger_log (LogActivated (gitlensVersion inp))
                         ((showWelcomePage (gitlensVersion inp) previousVersion s1)
                            \<lparr>marker := Some (gitlensVersion inp)\<rparr>)))))"

subsection \<open>The registry of the specification\<close>

text \<open>
  The specification describes the same migration as data: an ordered registry of batches,
  each a version threshold with a list of rules, walked by one loop that executes the
  rules of every batch whose threshold the previous version does not exceed.
\<close>

definition renames :: "(string \<times> string \<times> transform option) list" where
  "renames =
     [(''annotations.file.gutter.gravatars'', ''blame.avatars'', None),
      (''annotations.file.gutter.compact'', ''blame.compact'', None),
      (''annotations.file.gutter.dateFormat'', ''blame.dateFormat'', None),
      (''annotations.file.gutter.format'', ''blame.format'', None),
      (''annotations.file.gutter.heatmap.enabled'', ''blame.heatmap.enabled'', None),
      (''annotations.file.gutter.heatmap.location'', ''blame.heatmap.location'', None),
      (''annotations.file.gutter.lineHighlight.enabled'', ''blame.highlight.enabled'', None),
      (''annotations.file.gutter.lineHighlight.locations'', ''blame.highlight.locations'', None),
      (''annotations.file.gutter.separateLines'', ''blame.separateLines'', None),
      (''codeLens.locations'', ''codeLens.scopes'', None),
      (''codeLens.perLanguageLocations'', ''codeLens.scopesByLanguage'', Some codeLensScopes_fn),
      (''codeLens.customLocationSymbols'', ''codeLens.symbolScopes'', None),
      (''annotations.line.trailing.dateFormat'', ''currentLine.dateFormat'', None),
      (''blame.line.enabled'', ''currentLine.enabled'', None),
      (''annotations.line.trailing.format'', ''currentLine.format'', None),
      (''annotations.file.gutter.hover.changes'', ''hovers.annotations.changes'', None),
      (''annotations.file.gutter.hover.details'', ''hovers.annotations.details'', None),
      (''annotations.file.gutter.hover.details'', ''hovers.annotations.enabled'', None),
      (''annotations.file.gutter.hover.wholeLine'', ''hovers.annotations.over'', Some wholeLine_fn),
      (''annotations.line.trailing.hover.changes'', ''hovers.currentLine.changes'', None),
      (''annotations.line.trailing.hover.details'', ''hovers.currentLine.details'', None),
      (''blame.line.enabled'', ''hovers.currentLine.enabled'', None),
      (''annotations.line.trailing.hover.wholeLine'', ''hovers.currentLine.over'', Some wholeLine_fn),
      (''gitExplorer.gravatars'', ''explorers.avatars'', None),
      (''gitExplorer.commitFileFormat'', ''explorers.commitFileFormat'', None),
      (''gitExplorer.commitFormat'', ''explorers.commitFormat'', None),
      (''gitExplorer.stashFileFormat'', ''explorers.stashFileFormat'', None),
      (''gitExplorer.stashFormat'', ''explorers.stashFormat'', None),
      (''gitExplorer.statusFileFormat'', ''explorers.statusFileFormat'', None),
      (''recentChanges.file.lineHighlight.locations'', ''recentChanges.highlight.locations'', None)]"

definition overwrite :: "string \<times> string \<times> transform option \<Rightarrow> rule" where
  "overwrite t = (case t of (from, to, f) \<Rightarrow>
     \<lparr>sourceKey = from, destinationKey = to, transform = f, mode = Overwrite,
      fallbackValue = None\<rparr>)"

definition backfill :: "string \<times> string \<times> transform option \<Rightarrow> rule" where
  "backfill t = (case t of (from, to, f) \<Rightarrow>
     \<lparr>sourceKey = from, destinationKey = to, transform = f, mode = OnlyIfDestinationUnset,
      fallbackValue = None\<rparr>)"

definition rules_8_0_0_beta2 :: "rule list" where
  "rules_8_0_0_beta2 =
     [\<lparr>sourceKey = ''debug'', destinationKey = ''outputLevel'', transform = Some debug_fn,
       mode = Overwrite, fallbackValue = None\<rparr>,
      \<lparr>sourceKey = ''debug'', destinationKey = ''debug'', transform = Some undefined_fn,
       mode = Overwrite, fallbackValue = None\<rparr>]"

definition rules_8_0_0_rc :: "rule list" where
  "rules_8_0_0_rc =
     [\<lparr>sourceKey = ''blame.highlight.locations'', destinationKey = ''blame.highlight.locations'',
       transform = Some locations_fn, mode = Overwrite, fallbackValue = None\<rparr>,
      \<lparr>sourceKey = ''recentChanges.highlight.locations'',
       destinationKey = ''recentChanges.highlight.locations'',
       transform = Some locations_fn, mode = Overwrite, fallbackValue = None\<rparr>]"

definition rules_8_0_2 :: "rule list" where
  "rules_8_0_2 =
     [\<lparr>sourceKey = ''keymap'', destinationKey = ''keymap'', transform = Some keymap_fn,
       mode = Overwrite, fallbackValue = Some KeyMap_Alternate\<rparr>]"

definition registry :: "(version \<times> rule list) list" where
  "registry =
     [(Versions_from 7 5 10 None, map overwrite renames),
      (Versions_from 8 0 0 (Some ''beta2''), rules_8_0_0_beta2),
      (Versions_from 8 0 0 (Some ''rc''), rules_8_0_0_rc),
      (Versions_from 8 0 0 None, map backfill renames),
      (Versions_from 8 0 2 None, rules_8_0_2)]"

fun exec_rules :: "rule list \<Rightarrow> host \<Rightarrow> host" where
  "exec_rules [] s = s"
| "exec_rules (r # rs) s = exec_rules rs (executeRule r s)"

definition applicable :: "version \<Rightarrow> (version \<times> rule list) list" where
  "applicable previous = filter (\<lambda>b. Versions_compare previous (fst b) \<le> 0) registry"

definition applicable_rules :: "version \<Rightarrow> rule list" where
  "applicable_rules previous = concat (map snd (applicable previous))"

subsection \<open>Auxiliary notions\<close>

text \<open>Executing one rule of the registry as a statement of a block.\<close>

definition act :: "rule \<Rightarrow> host \<Rightarrow> host res" where
  "act r s = Done (executeRule r s)"

text \<open>A host on which nothing is set and nothing has happened, for concrete scenarios.\<close>

definition blank :: host where
  "blank = \<lparr>settings = Map.empty, defaults = Map.empty, writes = [], marker = None,
            enabled = None, logged = []\<rparr>"

text \<open>
  A rule keeps the key \<open>k\<close> when it cannot take an explicit value away from it: it
  writes elsewhere, or it copies, or its transform never yields \<^verbatim>\<open>undefined\<close> as long
  as \<open>k\<close> has a value to read.
\<close>

definition keeps :: "string \<Rightarrow> rule \<Rightarrow> bool" where
  "keeps k r =
     (destinationKey r = k \<longrightarrow>
        (case transform r of
           None \<Rightarrow> True
         | Some f \<Rightarrow> \<forall>get v. get k \<noteq> None \<longrightarrow> f get v \<noteq> Inr None))"

text \<open>
  For the rules of the table \<open>renames\<close>: a transform is pure when its result does not
  depend on what it could read from the configuration. \<open>moved t src dst\<close> is the value
  the destination of entry \<open>t\<close> holds after the entry was executed in overwrite mode
  with source value \<open>src\<close> and previous destination value \<open>dst\<close>; \<open>filled\<close> is the
  same for the mode that only fills an unset destination.
\<close>

definition pure_fn :: "transform option \<Rightarrow> bool" where
  "pure_fn fo = (case fo of None \<Rightarrow> True | Some f \<Rightarrow> \<forall>get get' v. f get v = f get' v)"

definition moved ::
  "string \<times> string \<times> transform option \<Rightarrow> jsvalue option \<Rightarrow> jsvalue option \<Rightarrow> jsvalue option" where
  "moved t src dst =
     (case src of
        None \<Rightarrow> dst
      | Some v \<Rightarrow>
          (case snd (snd t) of
             None \<Rightarrow> Some v
           | Some f \<Rightarrow> (case f (\<lambda>p. None) v of Inr w \<Rightarrow> w | Inl ex \<Rightarrow> dst)))"

definition filled ::
  "string \<times> string \<times> transform option \<Rightarrow> jsvalue option \<Rightarrow> jsvalue option \<Rightarrow> jsvalue option" where
  "filled t src dst = (case dst of Some d \<Rightarrow> Some d | None \<Rightarrow> moved t src None)"

text \<open>
  The rules of the batches selected by the five version tests, in registry order, and
  whether a previous-version input makes the 8.0.0-rc batch run.
\<close>

definition batches :: "bool \<Rightarrow> bool \<Rightarrow> bool \<Rightarrow> bool \<Rightarrow> bool \<Rightarrow> rule list" where
  "batches c1 c2 c3 c4 c5 =
     (if c1 then map overwrite renames else []) @
     (if c2 then rules_8_0_0_beta2 else []) @
     (if c3 then rules_8_0_0_rc else []) @
     (if c4 then map backfill renames else []) @
     (if c5 then rules_8_0_2 else [])"

definition rc_batch_runs :: "string option \<Rightarrow> bool" where
  "rc_batch_runs previousVersion =
     (case previousVersion of
        None \<Rightarrow> False
      | Some pv \<Rightarrow>
          (case Versions_fromString pv of
             Inl ex \<Rightarrow> False
           | Inr previous \<Rightarrow>
               Versions_compare previous (Versions_from 8 0 0 (Some ''rc'')) \<le> 0))"

text \<open>
  Whether a configuration value is an array that still holds the old name
  \<^verbatim>\<open>overviewRuler\<close>, and whether none of the four highlight-location values of a
  state (the two legacy keys and the two current ones) does.
\<close>

definition has_old_name :: "jsvalue option \<Rightarrow> bool" where
  "has_old_name vo =
     (case vo of Some (JArr xs) \<Rightarrow> JStr ''overviewRuler'' \<in> set xs | _ \<Rightarrow> False)"

definition old_name_absent :: "host \<Rightarrow> bool" where
  "old_name_absent s =
     (\<not> has_old_name (settings s ''annotations.file.gutter.lineHighlight.locations'')
      \<and> \<not> has_old_name (settings s ''blame.highlight.locations'')
      \<and> \<not> has_old_name (settings s ''recentChanges.file.lineHighlight.locations'')
      \<and> \<not> has_old_name (settings s ''recentChanges.highlight.locations''))"

section \<open>Properties\<close>

subsection \<open>The source blocks are the batches of the registry\<close>

lemma block_7_5_10_registry: "block_7_5_10 = map act (map overwrite renames)"
  by (simp add: block_7_5_10_def renames_def overwrite_def migrate_def act_def fun_eq_iff)

lemma block_8_0_0_registry: "block_8_0_0 = map act (map backfill renames)"
  by (simp add: block_8_0_0_def renames_def backfill_def migrateIfMissing_def act_def fun_eq_iff)

lemma block_8_0_0_beta2_registry: "block_8_0_0_beta2 = map act rules_8_0_0_beta2"
  by (simp add: block_8_0_0_beta2_def rules_8_0_0_beta2_def migrate_def act_def fun_eq_iff)

lemma block_8_0_0_rc_registry: "block_8_0_0_rc = map act rules_8_0_0_rc"
  by (simp add: block_8_0_0_rc_def rules_8_0_0_rc_def migrate_def act_def fun_eq_iff Let_def)

lemma block_8_0_2_registry: "block_8_0_2 = map act rules_8_0_2"
  by (simp add: block_8_0_2_def rules_8_0_2_def migrate_def act_def fun_eq_iff Let_def)

lemma seq_act: "seq (map act rs) s = Done (exec_rules rs s)"
  by (induction rs arbitrary: s) (simp_all add: act_def)

lemma exec_rules_append: "exec_rules (rs @ rs') s = exec_rules rs' (exec_rules rs s)"
  by (induction rs arbitrary: s) simp_all

lemma compare_range: "Versions_compare a b \<in> {- 1, 0, 1}"
  by (simp add: Versions_compare_def split: option.splits)

lemma compare_not_1: "(Versions_compare a b \<noteq> 1) = (Versions_compare a b \<le> 0)"
  using compare_range [of a b] by auto

lemma seq_block_7_5_10: "seq block_7_5_10 s = Done (exec_rules (map overwrite renames) s)"
  unfolding block_7_5_10_registry by (rule seq_act)

lemma seq_block_8_0_0_beta2: "seq block_8_0_0_beta2 s = Done (exec_rules rules_8_0_0_beta2 s)"
  unfolding block_8_0_0_beta2_registry by (rule seq_act)

lemma seq_block_8_0_0_rc: "seq block_8_0_0_rc s = Done (exec_rules rules_8_0_0_rc s)"
  unfolding block_8_0_0_rc_registry by (rule seq_act)

lemma seq_block_8_0_0: "seq block_8_0_0 s = Done (exec_rules (map backfill renames) s)"
  unfolding block_8_0_0_registry by (rule seq_act)

lemma seq_block_8_0_2: "seq block_8_0_2 s = Done (exec_rules rules_8_0_2 s)"
  unfolding block_8_0_2_registry by (rule seq_act)

text \<open>
  The \<^verbatim>\<open>try\<close> of lines 82 to 234 is one block around all five version checks: a
  statement that throws ends the block, the statements after it are not executed, and the
  \<^verbatim>\<open>catch\<close> logs the exception and lets the run return.
\<close>

lemma seq_throws:
  "seq before s = Done s0 \<Longrightarrow> a s0 = Threw ex s1 \<Longrightarrow> seq (before @ a # after) s = Threw ex s1"
  by (induction before arbitrary: s) (auto split: res.splits)

lemma try_catch_logs:
  "body s = Threw ex s1 \<Longrightarrow>
   try_catch body (\<lambda>ex s'. Done (Logger_error ex classifier s')) s =
     Done (Logger_error ex classifier s1)"
  by (simp add: try_catch_def)

lemma migrateSettings_registry:
  "Versions_fromString pv = Inr previous \<Longrightarrow>
   migrateSettings s (Some pv) = Done (exec_rules (applicable_rules previous) s)"
  by (simp add: migrateSettings_def try_catch_def if_then_def seq_block_7_5_10
      seq_block_8_0_0_beta2 seq_block_8_0_0_rc seq_block_8_0_0 seq_block_8_0_2
      applicable_rules_def applicable_def registry_def compare_not_1 exec_rules_append)

lemma migrateSettings_undefined: "migrateSettings s None = Done s"
  by (simp add: migrateSettings_def)

lemma migrateSettings_unparsable:
  "Versions_fromString pv = Inl ex \<Longrightarrow> migrateSettings s (Some pv) = Threw ex s"
  by (simp add: migrateSettings_def)

lemma migrateSettings_returned:
  "returned (migrateSettings s pvo) = (case pvo of None \<Rightarrow> True | Some pv \<Rightarrow> (\<exists>v. Versions_fromString pv = Inr v))"
proof (cases pvo)
  case None
  then show ?thesis by (simp add: migrateSettings_undefined)
next
  case (Some pv)
  then show ?thesis
    by (cases "Versions_fromString pv")
       (simp_all add: migrateSettings_unparsable migrateSettings_registry)
qed

lemma parse_7_5_9: "Versions_fromString ''7.5.9'' = Inr (Versions_from 7 5 9 None)"
  by (simp add: Versions_fromString_def number_def digit_def)

lemma parse_8_0_3: "Versions_fromString ''8.0.3'' = Inr (Versions_from 8 0 3 None)"
  by (simp add: Versions_fromString_def number_def digit_def)

lemma parse_8_0_0: "Versions_fromString ''8.0.0'' = Inr (Versions_from 8 0 0 None)"
  by (simp add: Versions_fromString_def number_def digit_def)

lemma parse_8_0_0_rc: "Versions_fromString ''8.0.0-rc'' = Inr (Versions_from 8 0 0 (Some ''rc''))"
  by (simp add: Versions_fromString_def number_def digit_def)

lemma parse_abc: "Versions_fromString ''abc'' = Inl (ParseError ''abc'')"
  by (simp add: Versions_fromString_def number_def digit_def)

lemma applicable_8_0_3: "applicable_rules (Versions_from 8 0 3 None) = []"
  by (simp add: applicable_rules_def applicable_def registry_def Versions_compare_def
      Versions_from_def)

lemma applicable_7_5_9:
  "applicable_rules (Versions_from 7 5 9 None) =
     map overwrite renames @ rules_8_0_0_beta2 @ rules_8_0_0_rc @ map backfill renames @
     rules_8_0_2"
  by (simp add: applicable_rules_def applicable_def registry_def Versions_compare_def
      Versions_from_def)

lemma applicable_8_0_0_rc:
  "applicable_rules (Versions_from 8 0 0 (Some ''rc'')) =
     rules_8_0_0_rc @ map backfill renames @ rules_8_0_2"
  by (simp add: applicable_rules_def applicable_def registry_def Versions_compare_def
      Versions_from_def)

lemmas store_defs = executeRule_def cfg_has_def cfg_get_def cfg_set_def cfg_unset_def
  cfg_update_def Logger_log_def

lemmas rule_tables = renames_def overwrite_def backfill_def rules_8_0_0_beta2_def
  rules_8_0_0_rc_def rules_8_0_2_def

subsection \<open>The concrete scenario\<close>

lemma scenario_7_5_9:
  "migrateSettings (s\<lparr>settings := [''blame.line.enabled'' \<mapsto> JBool True]\<rparr>) (Some ''7.5.9'') =
     Done (s\<lparr>settings := [''blame.line.enabled'' \<mapsto> JBool True,
                          ''currentLine.enabled'' \<mapsto> JBool True,
                          ''hovers.currentLine.enabled'' \<mapsto> JBool True,
                          ''keymap'' \<mapsto> KeyMap_Alternate],
             writes := writes s @ [(''currentLine.enabled'', Some (JBool True)),
                                   (''hovers.currentLine.enabled'', Some (JBool True)),
                                   (''keymap'', Some KeyMap_Alternate)]\<rparr>)"
  by (simp add: migrateSettings_registry [OF parse_7_5_9] applicable_7_5_9
      exec_rules_append rule_tables store_defs)


subsection \<open>What a rule leaves alone\<close>

lemma executeRule_other_fields:
  "defaults (executeRule r s) = defaults s"
  "marker (executeRule r s) = marker s"
  "enabled (executeRule r s) = enabled s"
  by (simp_all add: store_defs split: option.splits sum.splits)

lemma exec_rules_other_fields:
  "defaults (exec_rules rs s) = defaults s"
  "marker (exec_rules rs s) = marker s"
  "enabled (exec_rules rs s) = enabled s"
  by (induction rs arbitrary: s) (simp_all add: executeRule_other_fields)

lemma executeRule_frame:
  "k \<noteq> destinationKey r \<Longrightarrow> settings (executeRule r s) k = settings s k"
  by (simp add: store_defs split: option.splits sum.splits)

lemma exec_rules_frame:
  "k \<notin> destinationKey ` set rs \<Longrightarrow> settings (exec_rules rs s) k = settings s k"
  by (induction rs arbitrary: s) (simp_all add: executeRule_frame)

lemma exec_rules_frame_get:
  "k \<notin> destinationKey ` set rs \<Longrightarrow> cfg_get (exec_rules rs s) k = cfg_get s k"
  by (simp add: cfg_get_def exec_rules_frame exec_rules_other_fields split: option.splits)

lemma executeRule_keeps:
  "keeps k r \<Longrightarrow> settings s k \<noteq> None \<Longrightarrow> settings (executeRule r s) k \<noteq> None"
  by (auto simp add: keeps_def store_defs split: option.splits sum.splits)

lemma exec_rules_keeps:
  "\<forall>r \<in> set rs. keeps k r \<Longrightarrow> settings s k \<noteq> None \<Longrightarrow>
   settings (exec_rules rs s) k \<noteq> None"
  by (induction rs arbitrary: s) (simp_all add: executeRule_keeps del: not_None_eq)

lemma transforms_defined:
  "codeLensScopes_fn get v \<noteq> Inr None"
  "wholeLine_fn get v \<noteq> Inr None"
  "locations_fn get v \<noteq> Inr None"
  "keymap_fn get v \<noteq> Inr None"
  by (simp_all add: codeLensScopes_fn_def wholeLine_fn_def locations_fn_def keymap_fn_def
      Let_def split: jsvalue.splits sum.splits)

lemma debug_fn_defined: "get ''outputLevel'' \<noteq> None \<Longrightarrow> debug_fn get v \<noteq> Inr None"
  by (simp add: debug_fn_def OutputLevel_Debug_def)

lemma registry_keeps:
  "k \<noteq> ''debug'' \<Longrightarrow> \<forall>r \<in> set (concat (map snd registry)). keeps k r"
  by (simp add: registry_def rule_tables keeps_def transforms_defined debug_fn_defined)

lemma applicable_rules_subset:
  "set (applicable_rules previous) \<subseteq> set (concat (map snd registry))"
  by (auto simp add: applicable_rules_def applicable_def)

lemma applicable_rules_unfold:
  "applicable_rules previous =
     (if Versions_compare previous (Versions_from 7 5 10 None) \<le> 0
      then map overwrite renames else []) @
     (if Versions_compare previous (Versions_from 8 0 0 (Some ''beta2'')) \<le> 0
      then rules_8_0_0_beta2 else []) @
     (if Versions_compare previous (Versions_from 8 0 0 (Some ''rc'')) \<le> 0
      then rules_8_0_0_rc else []) @
     (if Versions_compare previous (Versions_from 8 0 0 None) \<le> 0
      then map backfill renames else []) @
     (if Versions_compare previous (Versions_from 8 0 2 None) \<le> 0
      then rules_8_0_2 else [])"
  by (simp add: applicable_rules_def applicable_def registry_def)

subsection \<open>The rules for the debug key\<close>

lemma compare_7_5_9_beta2:
  "Versions_compare (Versions_from 7 5 9 None) (Versions_from 8 0 0 (Some ''beta2'')) \<le> 0"
  by (simp add: Versions_compare_def Versions_from_def)

lemma overwrite_frame:
  "settings (exec_rules (map overwrite renames) s) ''debug'' = settings s ''debug''"
  "cfg_get (exec_rules (map overwrite renames) s) ''outputLevel'' = cfg_get s ''outputLevel''"
  by (rule exec_rules_frame, simp add: rule_tables)
     (rule exec_rules_frame_get, simp add: rule_tables)

lemma outputLevel_frame:
  "settings (exec_rules rules_8_0_0_rc s) ''outputLevel'' = settings s ''outputLevel''"
  "settings (exec_rules (map backfill renames) s) ''outputLevel'' = settings s ''outputLevel''"
  "settings (exec_rules rules_8_0_2 s) ''outputLevel'' = settings s ''outputLevel''"
  by (rule exec_rules_frame, simp add: rule_tables)+

lemma exec_rules_if: "exec_rules (if c then rs else []) s = (if c then exec_rules rs s else s)"
  by simp

lemma exec_beta2_outputLevel:
  "settings s ''debug'' = Some v \<Longrightarrow>
   settings (exec_rules rules_8_0_0_beta2 s) ''outputLevel'' =
     (if truthy v then Some OutputLevel_Debug else cfg_get s ''outputLevel'')"
  by (simp add: rules_8_0_0_beta2_def store_defs debug_fn_def undefined_fn_def
      OutputLevel_Debug_def split: option.splits)

lemma scenario_debug:
  "migrateSettings (blank\<lparr>settings := [''debug'' \<mapsto> JBool True]\<rparr>) (Some ''7.5.9'') =
     Done (blank\<lparr>settings := [''outputLevel'' \<mapsto> OutputLevel_Debug, ''keymap'' \<mapsto> KeyMap_Alternate],
                 writes := [(''outputLevel'', Some OutputLevel_Debug), (''debug'', None),
                            (''keymap'', Some KeyMap_Alternate)]\<rparr>)"
  by (simp add: migrateSettings_registry [OF parse_7_5_9] applicable_7_5_9
      exec_rules_append rule_tables store_defs debug_fn_def undefined_fn_def blank_def fun_upd_twist)

subsection \<open>A transform that throws\<close>

lemma nth_renames_10:
  "renames ! 10 = (''codeLens.perLanguageLocations'', ''codeLens.scopesByLanguage'',
                   Some codeLensScopes_fn)"
  by (simp add: renames_def)

lemma scenario_throwing_transform:
  "exec_rules (map overwrite (drop 11 renames) @ rules_8_0_0_beta2 @ rules_8_0_0_rc @
               map backfill renames @ rules_8_0_2)
     (Logger_log (LogWarning TypeError ''codeLens.perLanguageLocations'')
       (exec_rules (map overwrite (take 10 renames))
         (blank\<lparr>settings := [''codeLens.perLanguageLocations'' \<mapsto> JNum 5,
                               ''codeLens.customLocationSymbols'' \<mapsto> JArr [JStr ''x'']]\<rparr>))) =
   blank\<lparr>settings := [''codeLens.perLanguageLocations'' \<mapsto> JNum 5,
                       ''codeLens.customLocationSymbols'' \<mapsto> JArr [JStr ''x''],
                       ''codeLens.symbolScopes'' \<mapsto> JArr [JStr ''x''],
                       ''keymap'' \<mapsto> KeyMap_Alternate],
         writes := [(''codeLens.symbolScopes'', Some (JArr [JStr ''x''])),
                    (''keymap'', Some KeyMap_Alternate)],
         logged := [LogWarning TypeError ''codeLens.perLanguageLocations'',
                    LogWarning TypeError ''codeLens.perLanguageLocations'']\<rparr>"
  by (simp add: exec_rules_append rule_tables store_defs blank_def codeLensScopes_fn_def)


subsection \<open>The value a batch of renames leaves at a destination\<close>

lemma overwrite_fields:
  "destinationKey (overwrite t) = fst (snd t)" "sourceKey (overwrite t) = fst t"
  "destinationKey (backfill t) = fst (snd t)" "sourceKey (backfill t) = fst t"
  by (simp_all add: overwrite_def backfill_def split: prod.splits)

lemma executeRule_overwrite:
  assumes "pure_fn (snd (snd t))"
  shows "settings (executeRule (overwrite t) s) (fst (snd t)) =
           moved t (settings s (fst t)) (settings s (fst (snd t)))"
proof (cases "snd (snd t)")
  case None
  then show ?thesis
    by (cases t) (simp add: overwrite_def moved_def store_defs split: option.splits)
next
  case (Some f)
  with assms have "f (cfg_get s) = f (\<lambda>p. None)"
    by (auto simp add: pure_fn_def)
  with Some show ?thesis
    by (cases t) (simp add: overwrite_def moved_def store_defs split: option.splits sum.splits)
qed

lemma executeRule_backfill:
  assumes "pure_fn (snd (snd t))"
  shows "settings (executeRule (backfill t) s) (fst (snd t)) =
           filled t (settings s (fst t)) (settings s (fst (snd t)))"
proof (cases "snd (snd t)")
  case None
  then show ?thesis
    by (cases t) (simp add: backfill_def moved_def filled_def store_defs split: option.splits)
next
  case (Some f)
  with assms have "f (cfg_get s) = f (\<lambda>p. None)"
    by (auto simp add: pure_fn_def)
  with Some show ?thesis
    by (cases t)
       (simp add: backfill_def moved_def filled_def store_defs split: option.splits sum.splits)
qed

lemma batch_value:
  fixes mk :: "string \<times> string \<times> transform option \<Rightarrow> rule"
  assumes dst: "\<And>u. destinationKey (mk u) = fst (snd u)"
    and single: "\<And>u s. u \<in> set ts \<Longrightarrow>
        settings (executeRule (mk u) s) (fst (snd u)) =
          val u (settings s (fst u)) (settings s (fst (snd u)))"
    and dist: "distinct (map (\<lambda>e. fst (snd e)) ts)"
    and disj: "fst ` set ts \<inter> (\<lambda>e. fst (snd e)) ` set ts = {}"
    and mem: "t \<in> set ts"
  shows "settings (exec_rules (map mk ts) s) (fst (snd t)) =
           val t (settings s (fst t)) (settings s (fst (snd t)))"
  using single dist disj mem
proof (induction ts arbitrary: s)
  case Nil
  then show ?case by simp
next
  case (Cons u us)
  show ?case
  proof (cases "fst (snd t) = fst (snd u)")
    case True
    have "fst (snd u) \<notin> (\<lambda>e. fst (snd e)) ` set us"
      using Cons.prems(2) by auto
    with True Cons.prems(4) have tu: "t = u"
      by (auto simp add: image_iff)
    have "fst (snd u) \<notin> destinationKey ` set (map mk us)"
      using \<open>fst (snd u) \<notin> (\<lambda>e. fst (snd e)) ` set us\<close> by (auto simp add: dst image_iff)
    then have "settings (exec_rules (map mk us) (executeRule (mk u) s)) (fst (snd u)) =
                 settings (executeRule (mk u) s) (fst (snd u))"
      by (rule exec_rules_frame)
    with tu show ?thesis
      using Cons.prems(1) [of u s] by simp
  next
    case False
    with Cons.prems(4) have mem: "t \<in> set us"
      by auto
    have step: "settings (exec_rules (map mk us) (executeRule (mk u) s)) (fst (snd t)) =
            val t (settings (executeRule (mk u) s) (fst t))
                  (settings (executeRule (mk u) s) (fst (snd t)))"
    proof (rule Cons.IH)
      show "\<And>w s. w \<in> set us \<Longrightarrow>
              settings (executeRule (mk w) s) (fst (snd w)) =
                val w (settings s (fst w)) (settings s (fst (snd w)))"
        using Cons.prems(1) by simp
      show "distinct (map (\<lambda>e. fst (snd e)) us)"
        using Cons.prems(2) by simp
      show "fst ` set us \<inter> (\<lambda>e. fst (snd e)) ` set us = {}"
        using Cons.prems(3) by auto
      show "t \<in> set us"
        by (rule mem)
    qed
    have "fst t \<noteq> fst (snd u)"
    proof
      assume eq: "fst t = fst (snd u)"
      have "fst t \<in> fst ` set (u # us)"
        using Cons.prems(4) by (rule imageI)
      then have "fst (snd u) \<in> fst ` set (u # us)"
        by (simp only: eq)
      moreover have "fst (snd u) \<in> (\<lambda>e. fst (snd e)) ` set (u # us)"
        by simp
      ultimately have "fst (snd u) \<in> fst ` set (u # us) \<inter> (\<lambda>e. fst (snd e)) ` set (u # us)"
        by (rule IntI)
      then show False
        by (simp only: Cons.prems(3) empty_iff)
    qed
    then have "fst t \<noteq> destinationKey (mk u)"
      by (simp add: dst)
    then have "settings (executeRule (mk u) s) (fst t) = settings s (fst t)"
      by (rule executeRule_frame)
    moreover have "settings (executeRule (mk u) s) (fst (snd t)) = settings s (fst (snd t))"
      using False by (simp add: executeRule_frame dst)
    ultimately show ?thesis
      using step by simp
  qed
qed



lemma renames_pure: "\<forall>t \<in> set renames. pure_fn (snd (snd t))"
  by (simp add: renames_def pure_fn_def codeLensScopes_fn_def wholeLine_fn_def)

lemma renames_distinct: "distinct (map (\<lambda>e. fst (snd e)) renames)"
  by (simp add: renames_def)

lemma renames_disjoint: "fst ` set renames \<inter> (\<lambda>e. fst (snd e)) ` set renames = {}"
  by (simp add: renames_def)

lemma overwrite_renames_value:
  assumes "t \<in> set renames"
  shows "settings (exec_rules (map overwrite renames) s) (fst (snd t)) =
     moved t (settings s (fst t)) (settings s (fst (snd t)))"
proof (rule batch_value [where mk = overwrite and val = moved and ts = renames])
  show "\<And>u. destinationKey (overwrite u) = fst (snd u)"
    by (rule overwrite_fields)
  show "\<And>u s. u \<in> set renames \<Longrightarrow>
          settings (executeRule (overwrite u) s) (fst (snd u)) =
            moved u (settings s (fst u)) (settings s (fst (snd u)))"
    using renames_pure by (blast intro: executeRule_overwrite)
qed (rule renames_distinct renames_disjoint assms)+

lemma backfill_renames_value:
  assumes "t \<in> set renames"
  shows "settings (exec_rules (map backfill renames) s) (fst (snd t)) =
     filled t (settings s (fst t)) (settings s (fst (snd t)))"
proof (rule batch_value [where mk = backfill and val = filled and ts = renames])
  show "\<And>u. destinationKey (backfill u) = fst (snd u)"
    by (rule overwrite_fields)
  show "\<And>u s. u \<in> set renames \<Longrightarrow>
          settings (executeRule (backfill u) s) (fst (snd u)) =
            filled u (settings s (fst u)) (settings s (fst (snd u)))"
    using renames_pure by (blast intro: executeRule_backfill)
qed (rule renames_distinct renames_disjoint assms)+

subsection \<open>One run, key by key\<close>

lemma applicable_rules_batches:
  "applicable_rules previous =
     batches (Versions_compare previous (Versions_from 7 5 10 None) \<le> 0)
             (Versions_compare previous (Versions_from 8 0 0 (Some ''beta2'')) \<le> 0)
             (Versions_compare previous (Versions_from 8 0 0 (Some ''rc'')) \<le> 0)
             (Versions_compare previous (Versions_from 8 0 0 None) \<le> 0)
             (Versions_compare previous (Versions_from 8 0 2 None) \<le> 0)"
  by (simp only: applicable_rules_unfold batches_def)

lemma exec_batches:
  "exec_rules (batches c1 c2 c3 c4 c5) s =
     exec_rules (if c5 then rules_8_0_2 else [])
       (exec_rules (if c4 then map backfill renames else [])
         (exec_rules (if c3 then rules_8_0_0_rc else [])
           (exec_rules (if c2 then rules_8_0_0_beta2 else [])
             (exec_rules (if c1 then map overwrite renames else []) s))))"
  by (simp only: batches_def exec_rules_append)

lemma frame_renames:
  "k \<notin> (\<lambda>e. fst (snd e)) ` set renames \<Longrightarrow>
   settings (exec_rules (map overwrite renames) s) k = settings s k"
  "k \<notin> (\<lambda>e. fst (snd e)) ` set renames \<Longrightarrow>
   settings (exec_rules (map backfill renames) s) k = settings s k"
  by (rule exec_rules_frame, simp add: image_image overwrite_fields)+

lemma frame_beta2:
  "k \<noteq> ''outputLevel'' \<Longrightarrow> k \<noteq> ''debug'' \<Longrightarrow>
   settings (exec_rules rules_8_0_0_beta2 s) k = settings s k"
  by (rule exec_rules_frame) (simp add: rule_tables)

lemma frame_rc:
  "k \<noteq> ''blame.highlight.locations'' \<Longrightarrow> k \<noteq> ''recentChanges.highlight.locations'' \<Longrightarrow>
   settings (exec_rules rules_8_0_0_rc s) k = settings s k"
  by (rule exec_rules_frame) (simp add: rule_tables)

lemma frame_8_0_2:
  "k \<noteq> ''keymap'' \<Longrightarrow> settings (exec_rules rules_8_0_2 s) k = settings s k"
  by (rule exec_rules_frame) (simp add: rule_tables)

lemmas frames = frame_renames frame_beta2 frame_rc frame_8_0_2

lemma renames_not_special:
  "\<forall>t \<in> set renames. fst (snd t) \<notin> {''outputLevel'', ''debug'', ''keymap''}"
  "\<forall>t \<in> set renames. fst t \<notin> {''outputLevel'', ''debug'', ''keymap'',
      ''blame.highlight.locations'', ''recentChanges.highlight.locations''}"
  by (simp_all add: renames_def)

lemma source_not_destination:
  assumes "t \<in> set renames"
  shows "fst t \<notin> (\<lambda>e. fst (snd e)) ` set renames"
proof
  assume "fst t \<in> (\<lambda>e. fst (snd e)) ` set renames"
  moreover have "fst t \<in> fst ` set renames"
    using assms by (rule imageI)
  ultimately have "fst t \<in> fst ` set renames \<inter> (\<lambda>e. fst (snd e)) ` set renames"
    by simp
  then show False
    by (simp only: renames_disjoint empty_iff)
qed

lemma source_untouched:
  assumes "t \<in> set renames"
  shows "settings (exec_rules (batches c1 c2 c3 c4 c5) s) (fst t) = settings s (fst t)"
proof -
  have "fst t \<notin> {''outputLevel'', ''debug'', ''keymap'',
      ''blame.highlight.locations'', ''recentChanges.highlight.locations''}"
    using renames_not_special(2) assms by blast
  then show ?thesis
    using source_not_destination [OF assms]
    by (simp add: exec_batches exec_rules_if frames del: exec_rules.simps)
qed

lemma indexOf_absent: "a \<notin> set xs \<Longrightarrow> indexOf xs a = - 1"
  by (induction xs) (auto simp add: Let_def)

lemma locations_fn_inert:
  "\<not> has_old_name (Some v) \<Longrightarrow>
   locations_fn get v = Inr (Some v) \<or> (\<exists>ex. locations_fn get v = Inl ex)"
  by (cases v) (simp_all add: has_old_name_def locations_fn_def indexOf_absent Let_def)

lemma locations_rule_inert:
  assumes "\<not> has_old_name (settings s p)"
  shows "settings (executeRule \<lparr>sourceKey = p, destinationKey = p,
                    transform = Some locations_fn, mode = Overwrite,
                    fallbackValue = None\<rparr> s) p = settings s p"
proof (cases "settings s p")
  case None
  then show ?thesis by (simp add: store_defs)
next
  case (Some v)
  with assms have "locations_fn (cfg_get s) v = Inr (Some v)
                   \<or> (\<exists>ex. locations_fn (cfg_get s) v = Inl ex)"
    by (simp add: locations_fn_inert)
  with Some show ?thesis
    by (auto simp add: store_defs)
qed

lemma rc_inert:
  "\<not> has_old_name (settings s ''blame.highlight.locations'') \<Longrightarrow>
   settings (exec_rules rules_8_0_0_rc s) ''blame.highlight.locations'' =
     settings s ''blame.highlight.locations''"
  "\<not> has_old_name (settings s ''recentChanges.highlight.locations'') \<Longrightarrow>
   settings (exec_rules rules_8_0_0_rc s) ''recentChanges.highlight.locations'' =
     settings s ''recentChanges.highlight.locations''"
  by (simp_all add: rules_8_0_0_rc_def locations_rule_inert executeRule_frame)

lemma moved_copy:
  "snd (snd t) = None \<Longrightarrow> \<not> has_old_name src \<Longrightarrow> \<not> has_old_name dst \<Longrightarrow>
   \<not> has_old_name (moved t src dst)"
  "snd (snd t) = None \<Longrightarrow> \<not> has_old_name src \<Longrightarrow> \<not> has_old_name dst \<Longrightarrow>
   \<not> has_old_name (filled t src dst)"
  by (auto simp add: moved_def filled_def has_old_name_def split: option.splits)


lemma rename_key_value:
  assumes mem: "t \<in> set renames"
    and inert: "\<And>s'. c3 \<Longrightarrow>
        settings s' (fst (snd t)) =
          (if c1 then moved t (settings s (fst t)) (settings s (fst (snd t)))
           else settings s (fst (snd t))) \<Longrightarrow>
        settings (exec_rules rules_8_0_0_rc s') (fst (snd t)) = settings s' (fst (snd t))"
  shows "settings (exec_rules (batches c1 c2 c3 c4 c5) s) (fst (snd t)) =
           (let d1 = (if c1 then moved t (settings s (fst t)) (settings s (fst (snd t)))
                      else settings s (fst (snd t)))
            in if c4 then filled t (settings s (fst t)) d1 else d1)"
proof -
  define s1 where "s1 = exec_rules (if c1 then map overwrite renames else []) s"
  define s2 where "s2 = exec_rules (if c2 then rules_8_0_0_beta2 else []) s1"
  define s3 where "s3 = exec_rules (if c3 then rules_8_0_0_rc else []) s2"
  define s4 where "s4 = exec_rules (if c4 then map backfill renames else []) s3"
  have special: "fst (snd t) \<notin> {''outputLevel'', ''debug'', ''keymap''}"
    using renames_not_special(1) mem by blast
  have src_special: "fst t \<notin> {''outputLevel'', ''debug'', ''keymap'',
      ''blame.highlight.locations'', ''recentChanges.highlight.locations''}"
    using renames_not_special(2) mem by blast
  note src_dst = source_not_destination [OF mem]
  have d1: "settings s1 (fst (snd t)) =
              (if c1 then moved t (settings s (fst t)) (settings s (fst (snd t)))
               else settings s (fst (snd t)))"
    unfolding s1_def
    by (simp add: exec_rules_if overwrite_renames_value [OF mem] del: exec_rules.simps)
  have v1: "settings s1 (fst t) = settings s (fst t)"
    unfolding s1_def using src_dst by (simp add: exec_rules_if frames del: exec_rules.simps)
  have d2: "settings s2 (fst (snd t)) = settings s1 (fst (snd t))"
    unfolding s2_def using special by (simp add: exec_rules_if frames del: exec_rules.simps)
  have v2: "settings s2 (fst t) = settings s1 (fst t)"
    unfolding s2_def using src_special
    by (simp add: exec_rules_if frames del: exec_rules.simps)
  have d3: "settings s3 (fst (snd t)) = settings s2 (fst (snd t))"
  proof (cases c3)
    case True
    have "settings (exec_rules rules_8_0_0_rc s2) (fst (snd t)) = settings s2 (fst (snd t))"
      using True by (rule inert) (simp only: d2 d1)
    with True show ?thesis
      unfolding s3_def by (simp only: exec_rules_if if_True)
  next
    case False
    then show ?thesis
      unfolding s3_def by simp
  qed
  have v3: "settings s3 (fst t) = settings s2 (fst t)"
    unfolding s3_def using src_special
    by (simp add: exec_rules_if frames del: exec_rules.simps)
  have d4: "settings s4 (fst (snd t)) =
              (if c4 then filled t (settings s3 (fst t)) (settings s3 (fst (snd t)))
               else settings s3 (fst (snd t)))"
    unfolding s4_def
    by (simp add: exec_rules_if backfill_renames_value [OF mem] del: exec_rules.simps)
  have d5: "settings (exec_rules (if c5 then rules_8_0_2 else []) s4) (fst (snd t)) =
              settings s4 (fst (snd t))"
    using special by (simp add: exec_rules_if frames del: exec_rules.simps)
  have "exec_rules (batches c1 c2 c3 c4 c5) s = exec_rules (if c5 then rules_8_0_2 else []) s4"
    unfolding s4_def s3_def s2_def s1_def by (rule exec_batches)
  then show ?thesis
    by (simp only: d5 d4 d3 d2 d1 v3 v2 v1 Let_def)
qed

lemma moved_filled_stable:
  "(let d1 = (if c1 then moved t src
                 (let d1 = (if c1 then moved t src dst else dst)
                  in if c4 then filled t src d1 else d1)
              else (let d1 = (if c1 then moved t src dst else dst)
                    in if c4 then filled t src d1 else d1))
    in if c4 then filled t src d1 else d1) =
   (let d1 = (if c1 then moved t src dst else dst)
    in if c4 then filled t src d1 else d1)"
  by (simp add: Let_def moved_def filled_def split: option.splits sum.splits)

lemma rc_leaves_alone:
  assumes "fst (snd t) \<notin> {''blame.highlight.locations'', ''recentChanges.highlight.locations''}
           \<or> \<not> has_old_name d"
    and "settings s' (fst (snd t)) = d"
  shows "settings (exec_rules rules_8_0_0_rc s') (fst (snd t)) = settings s' (fst (snd t))"
proof (cases "fst (snd t) \<in> {''blame.highlight.locations'', ''recentChanges.highlight.locations''}")
  case True
  with assms have "\<not> has_old_name (settings s' (fst (snd t)))"
    by auto
  with True show ?thesis
    by (auto simp add: rc_inert)
next
  case False
  then show ?thesis
    by (simp add: frame_rc)
qed

lemma rename_key_stable:
  assumes mem: "t \<in> set renames"
    and rc: "fst (snd t) \<notin> {''blame.highlight.locations'', ''recentChanges.highlight.locations''}
             \<or> \<not> c3
             \<or> (snd (snd t) = None \<and> \<not> has_old_name (settings s (fst t))
                 \<and> \<not> has_old_name (settings s (fst (snd t))))"
  shows "settings (exec_rules (batches c1 c2 c3 c4 c5) (exec_rules (batches c1 c2 c3 c4 c5) s))
           (fst (snd t)) =
         settings (exec_rules (batches c1 c2 c3 c4 c5) s) (fst (snd t))"
proof -
  let ?src = "settings s (fst t)" and ?dst = "settings s (fst (snd t))"
  let ?once = "let d1 = (if c1 then moved t ?src ?dst else ?dst)
               in if c4 then filled t ?src d1 else d1"
  let ?s1 = "exec_rules (batches c1 c2 c3 c4 c5) s"
  have clean: "fst (snd t) \<notin> {''blame.highlight.locations'', ''recentChanges.highlight.locations''}
               \<or> (\<not> has_old_name (if c1 then moved t ?src ?dst else ?dst)
                   \<and> \<not> has_old_name (if c1 then moved t ?src ?once else ?once))"
    if c3
    using rc that by (auto simp add: moved_copy Let_def)
  have first: "settings ?s1 (fst (snd t)) = ?once"
  proof (rule rename_key_value [OF mem])
    fix s' :: host
    assume c3: c3
      and val: "settings s' (fst (snd t)) = (if c1 then moved t ?src ?dst else ?dst)"
    show "settings (exec_rules rules_8_0_0_rc s') (fst (snd t)) = settings s' (fst (snd t))"
    proof (rule rc_leaves_alone [OF _ val])
      show "fst (snd t) \<notin> {''blame.highlight.locations'', ''recentChanges.highlight.locations''}
            \<or> \<not> has_old_name (if c1 then moved t ?src ?dst else ?dst)"
        using clean [OF c3] by blast
    qed
  qed
  have src1: "settings ?s1 (fst t) = ?src"
    by (rule source_untouched [OF mem])
  have "settings (exec_rules (batches c1 c2 c3 c4 c5) ?s1) (fst (snd t)) =
          (let d1 = (if c1 then moved t (settings ?s1 (fst t)) (settings ?s1 (fst (snd t)))
                     else settings ?s1 (fst (snd t)))
           in if c4 then filled t (settings ?s1 (fst t)) d1 else d1)"
  proof (rule rename_key_value [OF mem])
    fix s' :: host
    assume c3: c3
      and val: "settings s' (fst (snd t)) =
                  (if c1 then moved t (settings ?s1 (fst t)) (settings ?s1 (fst (snd t)))
                   else settings ?s1 (fst (snd t)))"
    show "settings (exec_rules rules_8_0_0_rc s') (fst (snd t)) = settings s' (fst (snd t))"
    proof (rule rc_leaves_alone [OF _ val])
      show "fst (snd t) \<notin> {''blame.highlight.locations'', ''recentChanges.highlight.locations''}
            \<or> \<not> has_old_name
                  (if c1 then moved t (settings ?s1 (fst t)) (settings ?s1 (fst (snd t)))
                   else settings ?s1 (fst (snd t)))"
        using clean [OF c3] by (simp only: src1 first) blast
    qed
  qed
  then show ?thesis
    by (simp only: src1 first moved_filled_stable)
qed

subsection \<open>Running twice\<close>

lemma special_not_renamed:
  "''keymap'' \<notin> (\<lambda>e. fst (snd e)) ` set renames"
  "''debug'' \<notin> (\<lambda>e. fst (snd e)) ` set renames"
  "''outputLevel'' \<notin> (\<lambda>e. fst (snd e)) ` set renames"
  by (simp_all add: renames_def)

lemma exec_8_0_2_keymap:
  "settings (exec_rules rules_8_0_2 s) ''keymap'' =
     (case settings s ''keymap'' of
        None \<Rightarrow> Some KeyMap_Alternate
      | Some v \<Rightarrow> Some (if v = JStr ''standard'' then KeyMap_Alternate else v))"
  by (simp add: rules_8_0_2_def store_defs keymap_fn_def split: option.splits)

lemma exec_beta2_debug: "settings (exec_rules rules_8_0_0_beta2 s) ''debug'' = None"
  by (simp add: rules_8_0_0_beta2_def store_defs debug_fn_def undefined_fn_def
      split: option.splits)

lemma exec_beta2_level:
  "settings (exec_rules rules_8_0_0_beta2 s) ''outputLevel'' =
     (case settings s ''debug'' of
        None \<Rightarrow> settings s ''outputLevel''
      | Some v \<Rightarrow> (if truthy v then Some OutputLevel_Debug else cfg_get s ''outputLevel''))"
  by (simp add: rules_8_0_0_beta2_def store_defs debug_fn_def undefined_fn_def
      OutputLevel_Debug_def split: option.splits)

lemma keymap_value:
  "settings (exec_rules (batches c1 c2 c3 c4 c5) s) ''keymap'' =
     (if c5 then (case settings s ''keymap'' of
                    None \<Rightarrow> Some KeyMap_Alternate
                  | Some v \<Rightarrow> Some (if v = JStr ''standard'' then KeyMap_Alternate else v))
      else settings s ''keymap'')"
  by (simp add: exec_batches exec_rules_if frames special_not_renamed exec_8_0_2_keymap
      del: exec_rules.simps)

lemma debug_value:
  "settings (exec_rules (batches c1 c2 c3 c4 c5) s) ''debug'' =
     (if c2 then None else settings s ''debug'')"
  by (simp add: exec_batches exec_rules_if frames special_not_renamed exec_beta2_debug
      del: exec_rules.simps)

lemma level_value:
  "settings (exec_rules (batches c1 c2 c3 c4 c5) s) ''outputLevel'' =
     (if c2 then (case settings s ''debug'' of
                    None \<Rightarrow> settings s ''outputLevel''
                  | Some v \<Rightarrow> (if truthy v then Some OutputLevel_Debug
                               else cfg_get s ''outputLevel''))
      else settings s ''outputLevel'')"
  by (simp add: exec_batches exec_rules_if frames special_not_renamed exec_beta2_level
      cfg_get_def exec_rules_other_fields del: exec_rules.simps split: option.splits)

lemma special_keys_stable:
  "settings (exec_rules (batches c1 c2 c3 c4 c5) (exec_rules (batches c1 c2 c3 c4 c5) s))
     ''keymap'' = settings (exec_rules (batches c1 c2 c3 c4 c5) s) ''keymap''"
  "settings (exec_rules (batches c1 c2 c3 c4 c5) (exec_rules (batches c1 c2 c3 c4 c5) s))
     ''debug'' = settings (exec_rules (batches c1 c2 c3 c4 c5) s) ''debug''"
  "settings (exec_rules (batches c1 c2 c3 c4 c5) (exec_rules (batches c1 c2 c3 c4 c5) s))
     ''outputLevel'' = settings (exec_rules (batches c1 c2 c3 c4 c5) s) ''outputLevel''"
  by (simp_all add: keymap_value debug_value level_value KeyMap_Alternate_def
      split: option.splits)

lemma other_keys_untouched:
  assumes "k \<notin> (\<lambda>e. fst (snd e)) ` set renames"
    and "k \<noteq> ''keymap''" and "k \<noteq> ''debug''" and "k \<noteq> ''outputLevel''"
  shows "settings (exec_rules (batches c1 c2 c3 c4 c5) s) k = settings s k"
proof -
  have "''blame.highlight.locations'' \<in> (\<lambda>e. fst (snd e)) ` set renames"
       "''recentChanges.highlight.locations'' \<in> (\<lambda>e. fst (snd e)) ` set renames"
    by (simp_all add: renames_def)
  with assms(1) have "k \<noteq> ''blame.highlight.locations''"
      "k \<noteq> ''recentChanges.highlight.locations''"
    by auto
  with assms show ?thesis
    by (simp add: exec_batches exec_rules_if frames del: exec_rules.simps)
qed

lemma highlight_entries:
  "t \<in> set renames \<Longrightarrow> fst (snd t) = ''blame.highlight.locations'' \<Longrightarrow>
   fst t = ''annotations.file.gutter.lineHighlight.locations'' \<and> snd (snd t) = None"
  "t \<in> set renames \<Longrightarrow> fst (snd t) = ''recentChanges.highlight.locations'' \<Longrightarrow>
   fst t = ''recentChanges.file.lineHighlight.locations'' \<and> snd (snd t) = None"
  by (auto simp add: renames_def)

lemma second_run_stable:
  assumes "k \<notin> {''blame.highlight.locations'', ''recentChanges.highlight.locations''}
           \<or> \<not> c3 \<or> old_name_absent s"
  shows "settings (exec_rules (batches c1 c2 c3 c4 c5) (exec_rules (batches c1 c2 c3 c4 c5) s)) k =
         settings (exec_rules (batches c1 c2 c3 c4 c5) s) k"
proof (cases "k \<in> (\<lambda>e. fst (snd e)) ` set renames")
  case True
  then obtain t where mem: "t \<in> set renames" and k: "k = fst (snd t)"
    by auto
  have "fst (snd t) \<notin> {''blame.highlight.locations'', ''recentChanges.highlight.locations''}
        \<or> \<not> c3
        \<or> (snd (snd t) = None \<and> \<not> has_old_name (settings s (fst t))
            \<and> \<not> has_old_name (settings s (fst (snd t))))"
  proof (cases "fst (snd t) = ''blame.highlight.locations''")
    case True
    with highlight_entries(1) [OF mem] assms k show ?thesis
      by (auto simp add: old_name_absent_def)
  next
    case False
    show ?thesis
    proof (cases "fst (snd t) = ''recentChanges.highlight.locations''")
      case True
      with highlight_entries(2) [OF mem] assms k show ?thesis
        by (auto simp add: old_name_absent_def)
    next
      case other: False
      with False show ?thesis by simp
    qed
  qed
  with mem k show ?thesis
    by (simp only: rename_key_stable)
next
  case False
  show ?thesis
  proof (cases "k = ''keymap'' \<or> k = ''debug'' \<or> k = ''outputLevel''")
    case True
    then show ?thesis
      using special_keys_stable by blast
  next
    case other: False
    with False show ?thesis
      by (simp add: other_keys_untouched)
  qed
qed

lemma rc_first_run:
  "migrateSettings
     (blank\<lparr>settings := [''annotations.file.gutter.lineHighlight.locations'' \<mapsto>
                           JArr [JStr ''overviewRuler'']]\<rparr>) (Some ''8.0.0-rc'') =
   Done (blank\<lparr>settings := [''annotations.file.gutter.lineHighlight.locations'' \<mapsto>
                                JArr [JStr ''overviewRuler''],
                              ''blame.highlight.locations'' \<mapsto> JArr [JStr ''overviewRuler''],
                              ''keymap'' \<mapsto> KeyMap_Alternate],
               writes := [(''blame.highlight.locations'', Some (JArr [JStr ''overviewRuler''])),
                          (''keymap'', Some KeyMap_Alternate)]\<rparr>)"
  by (simp add: migrateSettings_registry [OF parse_8_0_0_rc] applicable_8_0_0_rc
      exec_rules_append rule_tables store_defs blank_def)

lemma rc_second_run:
  "settings (state_of (migrateSettings
     (blank\<lparr>settings := [''annotations.file.gutter.lineHighlight.locations'' \<mapsto>
                            JArr [JStr ''overviewRuler''],
                          ''blame.highlight.locations'' \<mapsto> JArr [JStr ''overviewRuler''],
                          ''keymap'' \<mapsto> KeyMap_Alternate],
            writes := [(''blame.highlight.locations'', Some (JArr [JStr ''overviewRuler''])),
                       (''keymap'', Some KeyMap_Alternate)]\<rparr>) (Some ''8.0.0-rc'')))
     ''blame.highlight.locations'' = Some (JArr [JStr ''overview''])"
  by (simp add: migrateSettings_registry [OF parse_8_0_0_rc] applicable_8_0_0_rc
      exec_rules_append rule_tables store_defs blank_def locations_fn_def keymap_fn_def)

lemma rc_batch_runs_7_5_9: "rc_batch_runs (Some ''7.5.9'')"
  by (simp add: rc_batch_runs_def parse_7_5_9 Versions_compare_def Versions_from_def)

lemma scenario_old_name_absent:
  "old_name_absent (blank\<lparr>settings := [''annotations.file.gutter.lineHighlight.locations'' \<mapsto>
                                          JArr [JStr ''gutter'', JStr ''line'']]\<rparr>)"
  by (simp add: old_name_absent_def has_old_name_def)

lemma scenario_gutter_line:
  "settings (state_of (migrateSettings
      (blank\<lparr>settings := [''annotations.file.gutter.lineHighlight.locations'' \<mapsto>
                             JArr [JStr ''gutter'', JStr ''line'']]\<rparr>) (Some ''7.5.9'')))
     ''blame.highlight.locations'' = Some (JArr [JStr ''gutter'', JStr ''line''])"
  by (simp add: migrateSettings_registry [OF parse_7_5_9] applicable_7_5_9
      exec_rules_append rule_tables store_defs blank_def locations_fn_def)

section \<open>The claims\<close>

text \<open>
  C1. For every previous version that parses and every configuration state, if the
  transform of one rule throws when the rule is executed, the run still returns, and it is
  the run in which every subsequent rule of the same batch and every rule of every later
  applicable batch has been executed after it; the failing rule itself has written its
  fallback value or, having none, has only left a warning in the log.
\<close>

theorem transform_failure_isolated:
  assumes parse: "Versions_fromString pv = Inr previous"
    and position: "applicable_rules previous = before @ r # after"
    and reached: "\<not> (mode r = OnlyIfDestinationUnset
                      \<and> cfg_has (exec_rules before s) (destinationKey r))"
    and source: "settings (exec_rules before s) (sourceKey r) = Some v"
    and fn: "transform r = Some f"
    and throws: "f (cfg_get (exec_rules before s)) v = Inl ex"
  shows "migrateSettings s (Some pv) =
           Done (exec_rules after
                  (case fallbackValue r of
                     None \<Rightarrow> Logger_log (LogWarning ex (sourceKey r)) (exec_rules before s)
                   | Some fb \<Rightarrow> cfg_set (destinationKey r) fb (exec_rules before s)))"
proof -
  have "executeRule r (exec_rules before s) =
          (case fallbackValue r of
             None \<Rightarrow> Logger_log (LogWarning ex (sourceKey r)) (exec_rules before s)
           | Some fb \<Rightarrow> cfg_set (destinationKey r) fb (exec_rules before s))"
    using reached source fn throws by (auto simp add: executeRule_def split: option.splits)
  then show ?thesis
    by (simp add: migrateSettings_registry [OF parse] position exec_rules_append)
qed

theorem transform_failure_isolated_witness:
  "Versions_fromString ''7.5.9'' = Inr (Versions_from 7 5 9 None)
   \<and> applicable_rules (Versions_from 7 5 9 None) =
       map overwrite (take 10 renames) @ overwrite (renames ! 10) #
       (map overwrite (drop 11 renames) @ rules_8_0_0_beta2 @ rules_8_0_0_rc @
        map backfill renames @ rules_8_0_2)
   \<and> codeLensScopes_fn
        (cfg_get (exec_rules (map overwrite (take 10 renames))
           (blank\<lparr>settings := [''codeLens.perLanguageLocations'' \<mapsto> JNum 5,
                                 ''codeLens.customLocationSymbols'' \<mapsto> JArr [JStr ''x'']]\<rparr>)))
        (JNum 5) = Inl TypeError
   \<and> migrateSettings
        (blank\<lparr>settings := [''codeLens.perLanguageLocations'' \<mapsto> JNum 5,
                              ''codeLens.customLocationSymbols'' \<mapsto> JArr [JStr ''x'']]\<rparr>)
        (Some ''7.5.9'') =
       Done (blank\<lparr>settings := [''codeLens.perLanguageLocations'' \<mapsto> JNum 5,
                                  ''codeLens.customLocationSymbols'' \<mapsto> JArr [JStr ''x''],
                                  ''codeLens.symbolScopes'' \<mapsto> JArr [JStr ''x''],
                                  ''keymap'' \<mapsto> KeyMap_Alternate],
                   writes := [(''codeLens.symbolScopes'', Some (JArr [JStr ''x''])),
                              (''keymap'', Some KeyMap_Alternate)],
                   logged := [LogWarning TypeError ''codeLens.perLanguageLocations'',
                              LogWarning TypeError ''codeLens.perLanguageLocations'']\<rparr>)"
proof -
  let ?s = "blank\<lparr>settings := [''codeLens.perLanguageLocations'' \<mapsto> JNum 5,
                                ''codeLens.customLocationSymbols'' \<mapsto> JArr [JStr ''x'']]\<rparr>"
  let ?before = "map overwrite (take 10 renames)"
  let ?after = "map overwrite (drop 11 renames) @ rules_8_0_0_beta2 @ rules_8_0_0_rc @
                map backfill renames @ rules_8_0_2"
  have position: "applicable_rules (Versions_from 7 5 9 None) =
                    ?before @ overwrite (renames ! 10) # ?after"
    by (simp add: applicable_7_5_9 renames_def)
  have source: "settings (exec_rules ?before ?s) (sourceKey (overwrite (renames ! 10))) =
                  Some (JNum 5)"
    by (simp add: nth_renames_10 renames_def overwrite_def executeRule_frame)
  have reached: "\<not> (mode (overwrite (renames ! 10)) = OnlyIfDestinationUnset
                     \<and> cfg_has (exec_rules ?before ?s)
                          (destinationKey (overwrite (renames ! 10))))"
    by (simp add: nth_renames_10 overwrite_def)
  have fn: "transform (overwrite (renames ! 10)) = Some codeLensScopes_fn"
    by (simp add: nth_renames_10 overwrite_def)
  have throws: "codeLensScopes_fn (cfg_get (exec_rules ?before ?s)) (JNum 5) = Inl TypeError"
    by (simp add: codeLensScopes_fn_def)
  have none: "fallbackValue (overwrite (renames ! 10)) = None"
       "sourceKey (overwrite (renames ! 10)) = ''codeLens.perLanguageLocations''"
    by (simp_all add: nth_renames_10 overwrite_def)
  show ?thesis
    using transform_failure_isolated [OF parse_7_5_9 position reached source fn throws]
      position throws parse_7_5_9
    by (simp only: none option.case scenario_throwing_transform simp_thms)
qed

text \<open>
  C2 (the code departs from the claim). The claim: for every previous-version string the
  migration run never raises past its own boundary; when parsing the persisted string
  fails, the run is aborted and logged and the caller does not abort. In the code the
  string is parsed on line 80, one statement before the \<^verbatim>\<open>try\<close> opens, and
  \<^verbatim>\<open>activate\<close> awaits the run outside any \<^verbatim>\<open>try\<close>: with the marker \<^verbatim>\<open>abc\<close> the
  parse error leaves \<^verbatim>\<open>migrateSettings\<close> and \<^verbatim>\<open>activate\<close>, nothing is logged and the
  marker is not rewritten.
\<close>

theorem unparsable_marker_aborts_activate:
  "activate \<lparr>gitEnabled = True, gitlensVersion = ''8.0.2'', gitInitialize = None\<rparr>
     (blank\<lparr>marker := Some ''abc''\<rparr>) =
   Threw (ParseError ''abc'') (blank\<lparr>marker := Some ''abc''\<rparr>)"
  by (simp add: activate_def migrateSettings_unparsable [OF parse_abc])

text \<open>
  Against C3 as stated: the second rule of the 8.0.0-beta2 batch (line 142) has
  \<^verbatim>\<open>debug\<close> as its source and as its destination and a transform that returns
  \<^verbatim>\<open>undefined\<close>. With previous version 7.5.9 and \<^verbatim>\<open>debug\<close> explicitly set to true,
  the key is a source key of an applicable rule, it is set before the run and unset
  after it.
\<close>

theorem debug_key_deleted:
  "settings (blank\<lparr>settings := [''debug'' \<mapsto> JBool True]\<rparr>) ''debug'' = Some (JBool True)
   \<and> ''debug'' \<in> sourceKey ` set (applicable_rules (Versions_from 7 5 9 None))
   \<and> Versions_fromString ''7.5.9'' = Inr (Versions_from 7 5 9 None)
   \<and> settings (state_of (migrateSettings (blank\<lparr>settings := [''debug'' \<mapsto> JBool True]\<rparr>)
        (Some ''7.5.9''))) ''debug'' = None"
  by (simp add: scenario_debug parse_7_5_9 applicable_7_5_9 rules_8_0_0_beta2_def)

text \<open>
  C3, amended. For every migration run, every key other than \<^verbatim>\<open>debug\<close> that was
  explicitly set before the run is still explicitly set after it, whatever the previous
  version; so every legacy source key except \<^verbatim>\<open>debug\<close> survives.
\<close>

theorem legacy_keys_kept_except_debug:
  "settings s k \<noteq> None \<Longrightarrow> k \<noteq> ''debug'' \<Longrightarrow>
   settings (state_of (migrateSettings s previousVersion)) k \<noteq> None"
proof (cases previousVersion)
  case None
  assume "settings s k \<noteq> None"
  with None show ?thesis by (simp add: migrateSettings_undefined)
next
  case (Some pv)
  assume set: "settings s k \<noteq> None" and k: "k \<noteq> ''debug''"
  show ?thesis
  proof (cases "Versions_fromString pv")
    case (Inl ex)
    with Some set show ?thesis by (simp add: migrateSettings_unparsable)
  next
    case (Inr previous)
    have "\<forall>r \<in> set (applicable_rules previous). keeps k r"
      using registry_keeps [OF k] applicable_rules_subset [of previous] by blast
    then have "settings (exec_rules (applicable_rules previous) s) k \<noteq> None"
      using set by (rule exec_rules_keeps)
    with Some Inr show ?thesis by (simp add: migrateSettings_registry)
  qed
qed

theorem legacy_keys_kept_witness:
  "settings (blank\<lparr>settings := [''blame.line.enabled'' \<mapsto> JBool True]\<rparr>) ''blame.line.enabled'' \<noteq> None
   \<and> ''blame.line.enabled'' \<noteq> ''debug''
   \<and> settings (state_of (migrateSettings
         (blank\<lparr>settings := [''blame.line.enabled'' \<mapsto> JBool True]\<rparr>) (Some ''7.5.9'')))
       ''blame.line.enabled'' \<noteq> None"
  using legacy_keys_kept_except_debug
    [of "blank\<lparr>settings := [''blame.line.enabled'' \<mapsto> JBool True]\<rparr>"
        "''blame.line.enabled''" "Some ''7.5.9''"]
  by simp

text \<open>
  Against C4 as stated: a startup with the feature enabled, the marker at 8.0.0 and the
  running version 8.0.2, in which Git initialization throws. \<^verbatim>\<open>activate\<close> returns
  from its \<^verbatim>\<open>catch\<close> on line 46, before the marker is written on line 65.
\<close>

theorem marker_not_written_when_git_fails:
  "gitEnabled \<lparr>gitEnabled = True, gitlensVersion = ''8.0.2'',
               gitInitialize = Some ''Unable to find git''\<rparr>
   \<and> returned (activate \<lparr>gitEnabled = True, gitlensVersion = ''8.0.2'',
                          gitInitialize = Some ''Unable to find git''\<rparr>
                 (blank\<lparr>marker := Some ''8.0.0''\<rparr>))
   \<and> marker (state_of (activate \<lparr>gitEnabled = True, gitlensVersion = ''8.0.2'',
                                  gitInitialize = Some ''Unable to find git''\<rparr>
                         (blank\<lparr>marker := Some ''8.0.0''\<rparr>))) \<noteq> Some ''8.0.2''"
  by (simp add: activate_def Let_def migrateSettings_registry [OF parse_8_0_0] Logger_error_def
      Logger_log_def setCommandContext_Enabled_def exec_rules_other_fields)

text \<open>
  C4, amended. For every startup in which the feature is enabled, the migration run
  returns to \<^verbatim>\<open>activate\<close> and Git initialization succeeds, \<^verbatim>\<open>activate\<close> returns and
  the current version is the new marker, whatever the run did to the configuration.
\<close>

theorem marker_written_when_startup_completes:
  assumes "gitEnabled inp" and "gitInitialize inp = None"
    and "returned (migrateSettings s (marker s))"
  shows "returned (activate inp s)
         \<and> marker (state_of (activate inp s)) = Some (gitlensVersion inp)"
  using assms
  by (cases "migrateSettings s (marker s)")
     (simp_all add: activate_def Let_def Logger_log_def)

theorem marker_written_witness:
  "gitEnabled \<lparr>gitEnabled = True, gitlensVersion = ''8.0.2'', gitInitialize = None\<rparr>
   \<and> returned (migrateSettings (blank\<lparr>marker := Some ''7.5.9''\<rparr>)
                 (marker (blank\<lparr>marker := Some ''7.5.9''\<rparr>)))
   \<and> marker (state_of (activate \<lparr>gitEnabled = True, gitlensVersion = ''8.0.2'',
                                  gitInitialize = None\<rparr>
                         (blank\<lparr>marker := Some ''7.5.9''\<rparr>))) = Some ''8.0.2''"
  using marker_written_when_startup_completes
    [of "\<lparr>gitEnabled = True, gitlensVersion = ''8.0.2'', gitInitialize = None\<rparr>"
        "blank\<lparr>marker := Some ''7.5.9''\<rparr>"]
  by (simp add: migrateSettings_returned parse_7_5_9)

text \<open>
  C5. For every parsed previous version, the rules of a batch are executed if and only if
  comparing the previous version with the batch's threshold gives at most 0, and the
  batches are checked in strictly ascending threshold order: 7.5.10, 8.0.0-beta2,
  8.0.0-rc, 8.0.0, 8.0.2. The run equals the registry loop over exactly the batches that
  pass the test, in registry order, and each threshold compares as -1 with every later one.
\<close>

theorem batches_gated_in_ascending_order:
  "Versions_fromString pv = Inr previous \<Longrightarrow>
     migrateSettings s (Some pv) =
       Done (exec_rules
              (concat (map snd (filter (\<lambda>b. Versions_compare previous (fst b) \<le> 0) registry))) s)
     \<and> map fst registry =
         [Versions_from 7 5 10 None, Versions_from 8 0 0 (Some ''beta2''),
          Versions_from 8 0 0 (Some ''rc''), Versions_from 8 0 0 None,
          Versions_from 8 0 2 None]
     \<and> sorted_wrt (\<lambda>a b. Versions_compare a b = - 1) (map fst registry)"
  by (simp add: migrateSettings_registry applicable_rules_def applicable_def)
     (simp add: registry_def Versions_compare_def Versions_from_def)

theorem batches_gated_witness:
  "Versions_fromString ''8.0.0-rc'' = Inr (Versions_from 8 0 0 (Some ''rc'')) \<and>
   migrateSettings blank (Some ''8.0.0-rc'') =
     Done (exec_rules (rules_8_0_0_rc @ map backfill renames @ rules_8_0_2) blank)"
  using batches_gated_in_ascending_order [OF parse_8_0_0_rc, of blank] parse_8_0_0_rc
    applicable_8_0_0_rc
  by (simp add: applicable_rules_def applicable_def)

text \<open>
  C6. With previous version 7.5.9 and a configuration in which only
  \<^verbatim>\<open>blame.line.enabled\<close> is explicitly set, to true, the run returns and leaves
  \<^verbatim>\<open>currentLine.enabled\<close> and \<^verbatim>\<open>hovers.currentLine.enabled\<close> both true and the
  legacy key present and unchanged; with previous version 8.0.3 the run changes nothing:
  no value and no entry in the sequence of writes.
\<close>

theorem concrete_scenario:
  "returned (migrateSettings (s\<lparr>settings := [''blame.line.enabled'' \<mapsto> JBool True]\<rparr>) (Some ''7.5.9''))
   \<and> settings (state_of (migrateSettings (s\<lparr>settings := [''blame.line.enabled'' \<mapsto> JBool True]\<rparr>)
        (Some ''7.5.9''))) ''currentLine.enabled'' = Some (JBool True)
   \<and> settings (state_of (migrateSettings (s\<lparr>settings := [''blame.line.enabled'' \<mapsto> JBool True]\<rparr>)
        (Some ''7.5.9''))) ''hovers.currentLine.enabled'' = Some (JBool True)
   \<and> settings (state_of (migrateSettings (s\<lparr>settings := [''blame.line.enabled'' \<mapsto> JBool True]\<rparr>)
        (Some ''7.5.9''))) ''blame.line.enabled'' = Some (JBool True)
   \<and> migrateSettings s (Some ''8.0.3'') = Done s"
  by (simp add: scenario_7_5_9 migrateSettings_registry [OF parse_8_0_3] applicable_8_0_3)

text \<open>
  C7. For the migration of the legacy \<^verbatim>\<open>debug\<close> key, with a previous version at or
  below 8.0.0-beta2: when the legacy value is true, \<^verbatim>\<open>outputLevel\<close> is the debug enum
  value after the run; when it is false, \<^verbatim>\<open>outputLevel\<close> is what reading
  \<^verbatim>\<open>outputLevel\<close> from the configuration gave at migration time (its explicit value,
  or else its default), not a constant.
\<close>

theorem debug_to_outputLevel:
  assumes parse: "Versions_fromString pv = Inr previous"
    and gate: "Versions_compare previous (Versions_from 8 0 0 (Some ''beta2'')) \<le> 0"
    and legacy: "settings s ''debug'' = Some (JBool b)"
  shows "settings (state_of (migrateSettings s (Some pv))) ''outputLevel'' =
           (if b then Some OutputLevel_Debug else cfg_get s ''outputLevel'')"
proof -
  define s1 where
    "s1 = exec_rules (if Versions_compare previous (Versions_from 7 5 10 None) \<le> 0
                      then map overwrite renames else []) s"
  define s2 where "s2 = exec_rules rules_8_0_0_beta2 s1"
  have debug1: "settings s1 ''debug'' = Some (JBool b)"
    unfolding s1_def using legacy by (simp add: overwrite_frame)
  have level1: "cfg_get s1 ''outputLevel'' = cfg_get s ''outputLevel''"
    unfolding s1_def by (simp add: overwrite_frame)
  have level2: "settings s2 ''outputLevel'' =
                  (if b then Some OutputLevel_Debug else cfg_get s ''outputLevel'')"
    unfolding s2_def using exec_beta2_outputLevel [OF debug1] level1 by simp
  have "state_of (migrateSettings s (Some pv)) =
          exec_rules (if Versions_compare previous (Versions_from 8 0 2 None) \<le> 0
                      then rules_8_0_2 else [])
            (exec_rules (if Versions_compare previous (Versions_from 8 0 0 None) \<le> 0
                         then map backfill renames else [])
              (exec_rules (if Versions_compare previous (Versions_from 8 0 0 (Some ''rc'')) \<le> 0
                           then rules_8_0_0_rc else []) s2))"
    unfolding s2_def s1_def using gate
    by (simp add: migrateSettings_registry [OF parse] applicable_rules_unfold exec_rules_append
        del: exec_rules.simps)
  then show ?thesis
    using level2 by (simp add: outputLevel_frame)
qed

theorem debug_to_outputLevel_witness:
  "Versions_fromString ''7.5.9'' = Inr (Versions_from 7 5 9 None)
   \<and> Versions_compare (Versions_from 7 5 9 None) (Versions_from 8 0 0 (Some ''beta2'')) \<le> 0
   \<and> settings (blank\<lparr>settings := [''debug'' \<mapsto> JBool False, ''outputLevel'' \<mapsto> JStr ''verbose'']\<rparr>)
        ''debug'' = Some (JBool False)
   \<and> settings (state_of (migrateSettings
         (blank\<lparr>settings := [''debug'' \<mapsto> JBool False, ''outputLevel'' \<mapsto> JStr ''verbose'']\<rparr>)
         (Some ''7.5.9''))) ''outputLevel'' = Some (JStr ''verbose'')"
  using debug_to_outputLevel [OF parse_7_5_9 compare_7_5_9_beta2,
      of "blank\<lparr>settings := [''debug'' \<mapsto> JBool False, ''outputLevel'' \<mapsto> JStr ''verbose'']\<rparr>"
         False]
    parse_7_5_9 compare_7_5_9_beta2
  by (simp add: cfg_get_def)

text \<open>
  Against C8 as stated: previous version 8.0.0-rc and a configuration in which only the
  legacy key \<^verbatim>\<open>annotations.file.gutter.lineHighlight.locations\<close> is set, to
  \<^verbatim>\<open>["overviewRuler"]\<close>. In the first run the 8.0.0-rc batch finds
  \<^verbatim>\<open>blame.highlight.locations\<close> unset and the 8.0.0 batch then fills it with the
  legacy value; in the second run the 8.0.0-rc batch rewrites that value to
  \<^verbatim>\<open>["overview"]\<close>.
\<close>

theorem second_run_differs:
  "settings (state_of (migrateSettings
      (blank\<lparr>settings := [''annotations.file.gutter.lineHighlight.locations'' \<mapsto>
                             JArr [JStr ''overviewRuler'']]\<rparr>) (Some ''8.0.0-rc'')))
     ''blame.highlight.locations'' = Some (JArr [JStr ''overviewRuler''])
   \<and> settings (state_of (migrateSettings (state_of (migrateSettings
      (blank\<lparr>settings := [''annotations.file.gutter.lineHighlight.locations'' \<mapsto>
                             JArr [JStr ''overviewRuler'']]\<rparr>) (Some ''8.0.0-rc'')))
      (Some ''8.0.0-rc''))) ''blame.highlight.locations'' = Some (JArr [JStr ''overview''])"
  by (simp add: rc_first_run rc_second_run)

text \<open>
  C8, amended. For every previous-version input and every initial configuration state,
  running the migration twice in succession leaves at every configuration key the value
  it has after one run, except possibly at \<^verbatim>\<open>blame.highlight.locations\<close> and
  \<^verbatim>\<open>recentChanges.highlight.locations\<close>, the two keys that the 8.0.0-rc batch
  rewrites in place. These two keys agree as well when the 8.0.0-rc batch does not run,
  and when none of the four highlight-location values (legacy or current) is an array
  holding the old name \<^verbatim>\<open>overviewRuler\<close>.
\<close>

theorem second_run_changes_only_highlight_locations:
  assumes "k \<notin> {''blame.highlight.locations'', ''recentChanges.highlight.locations''}
           \<or> \<not> rc_batch_runs previousVersion \<or> old_name_absent s"
  shows "settings (state_of (migrateSettings (state_of (migrateSettings s previousVersion))
                     previousVersion)) k =
         settings (state_of (migrateSettings s previousVersion)) k"
proof (cases previousVersion)
  case None
  then show ?thesis by (simp add: migrateSettings_undefined)
next
  case (Some pv)
  show ?thesis
  proof (cases "Versions_fromString pv")
    case (Inl ex)
    with Some show ?thesis by (simp add: migrateSettings_unparsable)
  next
    case (Inr previous)
    with Some assms
    have "k \<notin> {''blame.highlight.locations'', ''recentChanges.highlight.locations''}
          \<or> \<not> Versions_compare previous (Versions_from 8 0 0 (Some ''rc'')) \<le> 0
          \<or> old_name_absent s"
      by (simp add: rc_batch_runs_def)
    then show ?thesis
      unfolding Some
      by (simp only: migrateSettings_registry [OF Inr] state_of.simps applicable_rules_batches
          second_run_stable)
  qed
qed

theorem second_run_witness:
  "rc_batch_runs (Some ''7.5.9'')
   \<and> old_name_absent (blank\<lparr>settings := [''annotations.file.gutter.lineHighlight.locations'' \<mapsto>
                                            JArr [JStr ''gutter'', JStr ''line'']]\<rparr>)
   \<and> settings (state_of (migrateSettings (state_of (migrateSettings
          (blank\<lparr>settings := [''annotations.file.gutter.lineHighlight.locations'' \<mapsto>
                                 JArr [JStr ''gutter'', JStr ''line'']]\<rparr>) (Some ''7.5.9'')))
          (Some ''7.5.9''))) ''blame.highlight.locations'' =
       Some (JArr [JStr ''gutter'', JStr ''line''])"
  using second_run_changes_only_highlight_locations
    [of "''blame.highlight.locations''" "Some ''7.5.9''"
        "blank\<lparr>settings := [''annotations.file.gutter.lineHighlight.locations'' \<mapsto>
                               JArr [JStr ''gutter'', JStr ''line'']]\<rparr>"]
    rc_batch_runs_7_5_9 scenario_old_name_absent
  by (simp add: scenario_gutter_line)

text \<open>
  C9. When the stored previous version is undefined, the migration run applies no rule
  and performs no configuration write: it returns the state it was given. Through the
  whole of \<^verbatim>\<open>activate\<close> the configuration values and the sequence of writes stay as
  they were, and a startup that completes records the current version as the marker.
\<close>

theorem first_install_no_op:
  "marker s = None \<Longrightarrow>
     migrateSettings s (marker s) = Done s
     \<and> settings (state_of (activate inp s)) = settings s
     \<and> writes (state_of (activate inp s)) = writes s
     \<and> (gitEnabled inp \<and> gitInitialize inp = None \<longrightarrow>
          marker (state_of (activate inp s)) = Some (gitlensVersion inp))"
  by (simp add: activate_def migrateSettings_undefined showWelcomePage_def Logger_log_def
      Logger_error_def setCommandContext_Enabled_def split: option.splits)

theorem first_install_witness:
  "marker blank = None
   \<and> migrateSettings blank (marker blank) = Done blank
   \<and> writes (state_of (activate \<lparr>gitEnabled = True, gitlensVersion = ''8.0.2'',
                                  gitInitialize = None\<rparr> blank)) = []
   \<and> marker (state_of (activate \<lparr>gitEnabled = True, gitlensVersion = ''8.0.2'',
                                  gitInitialize = None\<rparr> blank)) = Some ''8.0.2''"
  using first_install_no_op [of blank
      "\<lparr>gitEnabled = True, gitlensVersion = ''8.0.2'', gitInitialize = None\<rparr>"]
  by (simp add: blank_def)

text \<open>
  C10. If Git initialization throws during an activation whose migration run has
  returned, \<^verbatim>\<open>activate\<close> logs the error, sets the enabled flag to false and returns
  with the marker as it was: the configuration holds what the run wrote, and the next
  launch reads the same previous version and so runs the same batches again.
\<close>

theorem git_failure_keeps_marker:
  assumes "gitEnabled inp" and "gitInitialize inp = Some msg"
    and "returned (migrateSettings s (marker s))"
  shows "returned (activate inp s)
         \<and> marker (state_of (activate inp s)) = marker s
         \<and> enabled (state_of (activate inp s)) = Some False
         \<and> LogError (GitError msg) ''activate'' \<in> set (logged (state_of (activate inp s)))
         \<and> settings (state_of (activate inp s)) =
             settings (state_of (migrateSettings s (marker s)))
         \<and> writes (state_of (activate inp s)) =
             writes (state_of (migrateSettings s (marker s)))"
proof (cases "marker s")
  case None
  with assms show ?thesis
    by (simp add: activate_def migrateSettings_undefined Logger_error_def Logger_log_def
        setCommandContext_Enabled_def)
next
  case (Some pv)
  with assms(3) obtain previous where "Versions_fromString pv = Inr previous"
    by (auto simp add: migrateSettings_returned)
  with Some assms(1,2) show ?thesis
    by (simp add: activate_def migrateSettings_registry Logger_error_def Logger_log_def
        setCommandContext_Enabled_def exec_rules_other_fields)
qed


theorem git_failure_keeps_marker_witness:
  "gitEnabled \<lparr>gitEnabled = True, gitlensVersion = ''8.0.2'',
               gitInitialize = Some ''Unable to find git''\<rparr>
   \<and> returned (migrateSettings (blank\<lparr>marker := Some ''8.0.0''\<rparr>)
                 (marker (blank\<lparr>marker := Some ''8.0.0''\<rparr>)))
   \<and> marker (state_of (activate \<lparr>gitEnabled = True, gitlensVersion = ''8.0.2'',
                                  gitInitialize = Some ''Unable to find git''\<rparr>
                         (blank\<lparr>marker := Some ''8.0.0''\<rparr>))) = Some ''8.0.0''
   \<and> enabled (state_of (activate \<lparr>gitEnabled = True, gitlensVersion = ''8.0.2'',
                                   gitInitialize = Some ''Unable to find git''\<rparr>
                          (blank\<lparr>marker := Some ''8.0.0''\<rparr>))) = Some False"
  using git_failure_keeps_marker
    [of "\<lparr>gitEnabled = True, gitlensVersion = ''8.0.2'',
          gitInitialize = Some ''Unable to find git''\<rparr>"
        "''Unable to find git''" "blank\<lparr>marker := Some ''8.0.0''\<rparr>"]
  by (simp add: migrateSettings_returned parse_8_0_0)

end
